theory Spec2Isabelle
  imports Complex_Main
begin

section \<open>Infernal Descent: the gameplay simulation core\<close>

text \<open>
  A shallow embedding of \<^verbatim>\<open>src/js/game.js\<close> (class \<^verbatim>\<open>Game\<close>) and of the parts of the
  engine class it calls (\<^verbatim>\<open>playSound\<close>, the key and mouse listeners).

  Conventions.
  \<^item> JavaScript numbers are modelled as exact reals (timestamps, ammunition and slot
    indices as integers), with one exception: the height of a level mesh is held in IEEE
    binary64, as JavaScript holds it, because the rounding of \<^verbatim>\<open>position.y -= 0.1\<close>
    decides where the secret wall stops.
  \<^item> Mutable objects held in arrays live in a store indexed by a reference: the enemy
    wrappers in \<open>objects\<close>, the level meshes in \<open>meshes\<close>; the arrays hold references.
    The sprite of an enemy is owned by that enemy alone, so its position and texture are
    fields of the enemy; its identity (what \<^verbatim>\<open>===\<close> compares) is the handle \<open>e_mesh\<close>.
  \<^item> What the browser and three.js decide is an input of a frame: the elapsed time, the
    clock, the pointer lock, the view direction and, for every object handle, the
    distances at which the view ray meets that object.
  \<^item> Effects that only change the picture (scene membership, the red flash and its
    timer, the billboard rotation, the renderer) are not part of the state.
\<close>

subsection \<open>Vectors (the operations of THREE.Vector3 that the game uses)\<close>

datatype vec3 = Vector3 (vx: real) (vy: real) (vz: real)

definition add :: "vec3 \<Rightarrow> vec3 \<Rightarrow> vec3" where
  "add a b = Vector3 (vx a + vx b) (vy a + vy b) (vz a + vz b)"

definition sub :: "vec3 \<Rightarrow> vec3 \<Rightarrow> vec3" where
  "sub a b = Vector3 (vx a - vx b) (vy a - vy b) (vz a - vz b)"

definition multiplyScalar :: "vec3 \<Rightarrow> real \<Rightarrow> vec3" where
  "multiplyScalar a k = Vector3 (vx a * k) (vy a * k) (vz a * k)"

definition addScaledVector :: "vec3 \<Rightarrow> vec3 \<Rightarrow> real \<Rightarrow> vec3" where
  "addScaledVector a b k = Vector3 (vx a + vx b * k) (vy a + vy b * k) (vz a + vz b * k)"

definition crossVectors :: "vec3 \<Rightarrow> vec3 \<Rightarrow> vec3" where
  "crossVectors a b =
     Vector3 (vy a * vz b - vz a * vy b) (vz a * vx b - vx a * vz b) (vx a * vy b - vy a * vx b)"

definition lengthSq :: "vec3 \<Rightarrow> real" where
  "lengthSq a = vx a * vx a + vy a * vy a + vz a * vz a"

definition vlength :: "vec3 \<Rightarrow> real" where
  "vlength a = sqrt (lengthSq a)"

text \<open>\<^verbatim>\<open>normalize()\<close> is \<^verbatim>\<open>divideScalar(length() || 1)\<close>: the zero vector stays zero.\<close>

definition normalize :: "vec3 \<Rightarrow> vec3" where
  "normalize a = multiplyScalar a (1 / (if vlength a = 0 then 1 else vlength a))"

definition distanceToSquared :: "vec3 \<Rightarrow> vec3 \<Rightarrow> real" where
  "distanceToSquared a b = lengthSq (sub a b)"

definition distanceTo :: "vec3 \<Rightarrow> vec3 \<Rightarrow> real" where
  "distanceTo a b = sqrt (distanceToSquared a b)"

text \<open>The camera's up vector is never changed: it is the default \<open>(0, 1, 0)\<close>.\<close>

definition cameraUp :: vec3 where
  "cameraUp = Vector3 0 1 0"

subsection \<open>Binary64 numbers\<close>

text \<open>A finite IEEE binary64 value is written as a pair \<open>(m, e)\<close> that stands for
  \<open>m * 2 ^ e\<close>. \<open>sub64\<close> is the subtraction of the standard: the exact difference, rounded
  to 53 significant bits, to nearest with ties to even (the exponent is not bounded, which
  is adequate for values of magnitude between \<open>2 ^ - 1022\<close> and \<open>2 ^ 1024\<close>). \<open>tenth64\<close> is
  the binary64 value of the literal \<^verbatim>\<open>0.1\<close>.\<close>

type_synonym binary64 = "int \<times> int"

definition value64 :: "binary64 \<Rightarrow> real" where
  "value64 x = (if 0 \<le> snd x then of_int (fst x) * 2 ^ nat (snd x)
                else of_int (fst x) / 2 ^ nat (- snd x))"

fun width :: "nat \<Rightarrow> nat" where
  "width n = (if n = 0 then 0 else Suc (width (n div 2)))"

definition roundShift :: "int \<Rightarrow> nat \<Rightarrow> int" where
  "roundShift a k =
     (let q = a div 2 ^ k; r = a mod 2 ^ k; h = 2 ^ k div 2
      in if h < r \<or> (r = h \<and> odd q) then q + 1 else q)"

definition round64 :: "binary64 \<Rightarrow> binary64" where
  "round64 x =
     (let n = width (nat \<bar>fst x\<bar>)
      in if n \<le> 53 then x
         else (sgn (fst x) * roundShift \<bar>fst x\<bar> (n - 53), snd x + int (n - 53)))"

definition sub64 :: "binary64 \<Rightarrow> binary64 \<Rightarrow> binary64" where
  "sub64 x y =
     (let e = min (snd x) (snd y)
      in round64 (fst x * 2 ^ nat (snd x - e) - fst y * 2 ^ nat (snd y - e), e))"

definition tenth64 :: binary64 where
  "tenth64 = (3602879701896397, - 55)"

subsection \<open>Constants and the weapon catalogue\<close>

definition PLAYER_SPEED :: real where "PLAYER_SPEED = 10"
definition SPRINT_MULTIPLIER :: real where "SPRINT_MULTIPLIER = 3 / 2"
definition GRAVITY :: real where "GRAVITY = 30"
definition JUMP_FORCE :: real where "JUMP_FORCE = 15"

datatype wtype = HITSCAN | PROJECTILE | AOE

record weapon =
  w_name :: string
  w_damage :: real
  w_range :: real
  w_delay :: int
  w_type :: wtype

text \<open>\<^verbatim>\<open>WEAPONS[i]\<close> is \<^verbatim>\<open>undefined\<close> for every key other than 0, 1, 2, 3.\<close>

definition WEAPONS :: "nat \<Rightarrow> weapon option" where
  "WEAPONS i =
     (if i = 0 then Some \<lparr>w_name = ''Knuckles'', w_damage = 10, w_range = 3, w_delay = 500, w_type = HITSCAN\<rparr>
      else if i = 1 then Some \<lparr>w_name = ''Shotgun'', w_damage = 80, w_range = 15, w_delay = 1000, w_type = HITSCAN\<rparr>
      else if i = 2 then Some \<lparr>w_name = ''Nailgun'', w_damage = 15, w_range = 40, w_delay = 100, w_type = PROJECTILE\<rparr>
      else if i = 3 then Some \<lparr>w_name = ''Launcher'', w_damage = 120, w_range = 60, w_delay = 1500, w_type = AOE\<rparr>
      else None)"

definition sfxMap :: "string list" where
  "sfxMap = [''punch'', ''shotgun'', ''nailgun'', ''launcher'']"

subsection \<open>The game state\<close>

datatype estate = IDLE | CHASE

record enemy =
  e_mesh :: nat
  e_position :: vec3
  e_map :: string
  e_hp :: real
  e_state :: estate
  e_speed :: real
  e_attackRange :: real

record projectile =
  p_position :: vec3
  p_velocity :: vec3
  p_type :: wtype
  p_damage :: real
  p_lifetime :: real

text \<open>A level mesh: \<^verbatim>\<open>position.x\<close>, \<^verbatim>\<open>position.y\<close> (in binary64), \<^verbatim>\<open>position.z\<close> and
  \<^verbatim>\<open>userData.isSecret\<close>.\<close>

record mesh =
  m_x :: real
  m_y :: binary64
  m_z :: real
  m_isSecret :: bool

record player =
  hp :: real
  armor :: real
  ammo_current :: int
  ammo_max :: int
  velocity :: vec3
  canJump :: bool
  currentWeaponIdx :: nat
  lastFireTime :: int

record keys =
  k_w :: bool
  k_a :: bool
  k_s :: bool
  k_d :: bool
  k_shift :: bool
  k_space :: bool

text \<open>What \<^verbatim>\<open>_updateHUD\<close> writes into the page: the health number, the armour number,
  the two parts of the ammunition text \<^verbatim>\<open>"<current> | <name>"\<close>, and the face image.\<close>

record hud =
  hud_health :: int
  hud_armor :: real
  hud_ammo :: "int \<times> string"
  hud_face :: string

record game =
  player :: player
  enemies :: "nat list"
  objects :: "nat \<Rightarrow> enemy"
  projectiles :: "projectile list"
  levelGeometry :: "nat list"
  meshes :: "nat \<Rightarrow> mesh"
  camera_position :: vec3
  keys :: keys
  mouseCheck_left :: bool
  sounds :: "string \<Rightarrow> bool"
  audio :: "string list"
  page :: "hud option"
  exitPointerLock :: nat

text \<open>The inputs of one frame. \<open>ray h\<close> lists the distances at which the ray from the
  centre of the view meets the object with handle \<open>h\<close> (empty when it misses).\<close>

record frame =
  dt :: real
  now :: int
  isLocked :: bool
  worldDirection :: vec3
  ray :: "nat \<Rightarrow> real list"

record hit =
  h_distance :: real
  h_object :: nat

datatype error = TypeError

subsection \<open>The engine: sound, ray queries, input listeners\<close>

text \<open>\<^verbatim>\<open>playSound(name)\<close> returns at once when no buffer was loaded under that name;
  otherwise it starts the sound, which \<open>audio\<close> records.\<close>

definition playSound :: "string \<Rightarrow> game \<Rightarrow> game" where
  "playSound name' g = (if \<not> sounds g name' then g else g\<lparr>audio := audio g @ [name']\<rparr>)"

text \<open>Modelled from the spec: the host's ray intersection query
  (\<^verbatim>\<open>Raycaster.intersectObjects\<close> of three.js, which is no part of the sources),
  ``against a given set of visual handles, returning ordered hits with distance''.
  Every intersection of the ray with one of the given objects is a hit; the hits are
  ordered by ascending distance.\<close>

definition intersectObjects :: "(nat \<Rightarrow> real list) \<Rightarrow> nat list \<Rightarrow> hit list" where
  "intersectObjects rc objs =
     sort_key h_distance (concat (map (\<lambda>h. map (\<lambda>d. \<lparr>h_distance = d, h_object = h\<rparr>) (rc h)) objs))"

text \<open>The listener of the \<^verbatim>\<open>switchWeapon\<close> event, and the engine's key and mouse
  listeners. Only the keys Digit1 to Digit4 dispatch \<^verbatim>\<open>switchWeapon\<close>, with 0 to 3.\<close>

definition switchWeapon :: "nat \<Rightarrow> game \<Rightarrow> game" where
  "switchWeapon detail g = g\<lparr>player := (player g)\<lparr>currentWeaponIdx := detail\<rparr>\<rparr>"

definition onKey :: "string \<Rightarrow> bool \<Rightarrow> game \<Rightarrow> game" where
  "onKey code isDown g =
     (if code = ''KeyW'' then g\<lparr>keys := (keys g)\<lparr>k_w := isDown\<rparr>\<rparr>
      else if code = ''KeyA'' then g\<lparr>keys := (keys g)\<lparr>k_a := isDown\<rparr>\<rparr>
      else if code = ''KeyS'' then g\<lparr>keys := (keys g)\<lparr>k_s := isDown\<rparr>\<rparr>
      else if code = ''KeyD'' then g\<lparr>keys := (keys g)\<lparr>k_d := isDown\<rparr>\<rparr>
      else if code = ''ShiftLeft'' then g\<lparr>keys := (keys g)\<lparr>k_shift := isDown\<rparr>\<rparr>
      else if code = ''Space'' then g\<lparr>keys := (keys g)\<lparr>k_space := isDown\<rparr>\<rparr>
      else if code = ''Digit1'' then (if isDown then switchWeapon 0 g else g)
      else if code = ''Digit2'' then (if isDown then switchWeapon 1 g else g)
      else if code = ''Digit3'' then (if isDown then switchWeapon 2 g else g)
      else if code = ''Digit4'' then (if isDown then switchWeapon 3 g else g)
      else g)"

definition onMouse :: "nat \<Rightarrow> bool \<Rightarrow> game \<Rightarrow> game" where
  "onMouse button isDown g = (if button = 0 then g\<lparr>mouseCheck_left := isDown\<rparr> else g)"

subsection \<open>Level construction\<close>

definition spawned :: "nat \<Rightarrow> vec3 \<Rightarrow> enemy" where
  "spawned h position =
     \<lparr>e_mesh = h, e_position = position, e_map = ''enemy_idle'', e_hp = 50, e_state = IDLE,
      e_speed = 3, e_attackRange = 2\<rparr>"

text \<open>\<^verbatim>\<open>createWall(x, y, z, w, h, mat)\<close> ignores its \<open>y\<close>: the mesh is placed at height 5.\<close>

definition createWall :: "real \<Rightarrow> real \<Rightarrow> real \<Rightarrow> mesh" where
  "createWall x' y' z' = \<lparr>m_x = x', m_y = (5, 0), m_z = z', m_isSecret = False\<rparr>"

text \<open>The state after the constructor, \<^verbatim>\<open>init\<close> and \<^verbatim>\<open>_buildLevel\<close>. \<open>loaded\<close> tells which
  sound buffers were loaded (a failed load leaves \<^verbatim>\<open>null\<close>). Level meshes get the
  handles 0 (floor) to 5 (secret wall), the two sprites 6 and 7; the camera is where
  three.js creates it, at the origin. Store cells that hold no object are filled
  with a fixed value and never referenced.\<close>

definition initial :: "(string \<Rightarrow> bool) \<Rightarrow> game" where
  "initial loaded =
     \<lparr>player = \<lparr>hp = 100, armor = 0, ammo_current = 20, ammo_max = 50, velocity = Vector3 0 0 0,
                 canJump = False, currentWeaponIdx = 0, lastFireTime = 0\<rparr>,
      enemies = [0, 1],
      objects = (\<lambda>_. spawned 0 (Vector3 0 0 0))
                  (0 := spawned 6 (Vector3 0 (5 / 2) (- 20)),
                   1 := spawned 7 (Vector3 10 (5 / 2) (- 10))),
      projectiles = [],
      levelGeometry = [0, 1, 2, 3, 4, 5],
      meshes = (\<lambda>_. \<lparr>m_x = 0, m_y = (0, 0), m_z = 0, m_isSecret = False\<rparr>)
                  (1 := createWall 0 5 (- 50), 2 := createWall 0 5 50,
                   3 := createWall (- 50) 5 0, 4 := createWall 50 5 0,
                   5 := (createWall 0 5 (- 49))\<lparr>m_isSecret := True\<rparr>),
      camera_position = Vector3 0 0 0,
      keys = \<lparr>k_w = False, k_a = False, k_s = False, k_d = False, k_shift = False, k_space = False\<rparr>,
      mouseCheck_left = False,
      sounds = loaded,
      audio = [],
      page = None,
      exitPointerLock = 0\<rparr>"

subsection \<open>Player movement\<close>

definition handleMovement :: "frame \<Rightarrow> game \<Rightarrow> game" where
  "handleMovement f g =
     (let ks = keys g;
          speed = (if k_shift ks then PLAYER_SPEED * SPRINT_MULTIPLIER else PLAYER_SPEED);
          front = normalize (Vector3 (vx (worldDirection f)) 0 (vz (worldDirection f)));
          side = normalize (crossVectors front cameraUp);
          d0 = Vector3 0 0 0;
          d1 = (if k_w ks then add d0 front else d0);
          d2 = (if k_s ks then sub d1 front else d1);
          d3 = (if k_a ks then sub d2 side else d2);
          d4 = (if k_d ks then add d3 side else d3);
          direction = normalize d4;
          velocity_x = vx direction * speed;
          velocity_z = vz direction * speed;
          fallen = vy (velocity (player g)) - GRAVITY * dt f;
          jump = (k_space ks \<and> canJump (player g));
          velocity_y = (if jump then JUMP_FORCE else fallen);
          canJump' = (if jump then False else canJump (player g));
          position = Vector3 (vx (camera_position g) + velocity_x * dt f)
                             (vy (camera_position g) + velocity_y * dt f)
                             (vz (camera_position g) + velocity_z * dt f)
      in if vy position < 5 / 2
         then g\<lparr>player := (player g)\<lparr>velocity := Vector3 velocity_x 0 velocity_z, canJump := True\<rparr>,
                camera_position := Vector3 (vx position) (5 / 2) (vz position)\<rparr>
         else g\<lparr>player := (player g)\<lparr>velocity := Vector3 velocity_x velocity_y velocity_z,
                                        canJump := canJump'\<rparr>,
                camera_position := position\<rparr>)"

subsection \<open>The secret wall\<close>

definition handleEnvironment :: "frame \<Rightarrow> game \<Rightarrow> game" where
  "handleEnvironment f g =
     (case intersectObjects (ray f) (levelGeometry g) of
        [] \<Rightarrow> g
      | hit # _ \<Rightarrow>
          if h_distance hit < 4 then
            if m_isSecret (meshes g (h_object hit)) then
              if - 5 < value64 (m_y (meshes g (h_object hit))) then
                g\<lparr>meshes := (meshes g)(h_object hit :=
                     (meshes g (h_object hit))\<lparr>m_y := sub64 (m_y (meshes g (h_object hit))) tenth64\<rparr>)\<rparr>
              else g
            else g
          else g)"

text \<open>The statement \<^verbatim>\<open>if (y > -5) y -= 0.1\<close> on its own, and the height of a wall after
  \<open>n\<close> ticks in which it is lowered, starting from the height 5 at which
  \<^verbatim>\<open>createWall\<close> places it.\<close>

definition wallStep64 :: "binary64 \<Rightarrow> binary64" where
  "wallStep64 y = (if - 5 < value64 y then sub64 y tenth64 else y)"


subsection \<open>Damage and death of an enemy\<close>

text \<open>\<^verbatim>\<open>indexOf(enemy)\<close> followed by \<^verbatim>\<open>splice(idx, 1)\<close> removes the first occurrence of
  the reference from the array, and nothing when it does not occur.\<close>

definition killEnemy :: "nat \<Rightarrow> game \<Rightarrow> game" where
  "killEnemy r g = (let g1 = playSound ''die'' g in g1\<lparr>enemies := remove1 r (enemies g1)\<rparr>)"

definition damageEnemy :: "nat \<Rightarrow> real \<Rightarrow> game \<Rightarrow> game" where
  "damageEnemy r damage g =
     (let g1 = g\<lparr>objects := (objects g)(r := (objects g r)\<lparr>e_hp := e_hp (objects g r) - damage\<rparr>)\<rparr>
      in if e_hp (objects g1 r) \<le> 0 then killEnemy r g1 else g1)"

subsection \<open>Firing\<close>

definition fireHitscan :: "weapon \<Rightarrow> frame \<Rightarrow> game \<Rightarrow> game" where
  "fireHitscan weapon f g =
     (let enemyMeshes = map (\<lambda>e. e_mesh (objects g e)) (enemies g) in
      case intersectObjects (ray f) enemyMeshes of
        [] \<Rightarrow> g
      | hit # _ \<Rightarrow>
          if h_distance hit \<le> w_range weapon then
            (case find (\<lambda>e. e_mesh (objects g e) = h_object hit) (enemies g) of
               None \<Rightarrow> g
             | Some enemy \<Rightarrow> damageEnemy enemy (w_damage weapon) g)
          else g)"

definition fireProjectile :: "weapon \<Rightarrow> frame \<Rightarrow> game \<Rightarrow> game" where
  "fireProjectile weapon f g =
     g\<lparr>projectiles := projectiles g @
          [\<lparr>p_position = addScaledVector (camera_position g) (worldDirection f) 1,
            p_velocity = multiplyScalar (worldDirection f) 30,
            p_type = w_type weapon,
            p_damage = w_damage weapon,
            p_lifetime = 2\<rparr>]\<rparr>"

text \<open>Reading a field of \<^verbatim>\<open>WEAPONS[i]\<close> for a missing slot throws a TypeError.\<close>

definition handleShooting :: "frame \<Rightarrow> game \<Rightarrow> error + game" where
  "handleShooting f g =
     (if \<not> mouseCheck_left g then Inr g
      else case WEAPONS (currentWeaponIdx (player g)) of
        None \<Rightarrow> Inl TypeError
      | Some weapon \<Rightarrow>
          if now f - lastFireTime (player g) > w_delay weapon then
            (let g1 = g\<lparr>player := (player g)\<lparr>lastFireTime := now f\<rparr>\<rparr>;
                 g2 = playSound (sfxMap ! currentWeaponIdx (player g1)) g1
             in Inr (if w_type weapon = HITSCAN then fireHitscan weapon f g2
                     else fireProjectile weapon f g2))
          else Inr g)"

subsection \<open>Projectiles\<close>

text \<open>The body of the loop of \<^verbatim>\<open>_updateProjectiles\<close> for one projectile: the state after
  it, and the projectile if it stays in the array.\<close>

definition stepProjectile :: "real \<Rightarrow> projectile \<Rightarrow> game \<Rightarrow> game \<times> projectile option" where
  "stepProjectile dt' p g =
     (let p1 = p\<lparr>p_position := addScaledVector (p_position p) (p_velocity p) dt',
                 p_lifetime := p_lifetime p - dt'\<rparr>
      in case find (\<lambda>e. distanceTo (p_position p1) (e_position (objects g e)) < 2) (enemies g) of
           Some enemy \<Rightarrow> (damageEnemy enemy (p_damage p1) g, None)
         | None \<Rightarrow> (g, if p_lifetime p1 \<le> 0 then None else Some p1))"

text \<open>The loop runs from the last index down to 0, so the tail of the list is handled
  before its head; a removed projectile is spliced out, the others keep their order.\<close>

primrec projectileLoop :: "real \<Rightarrow> projectile list \<Rightarrow> game \<Rightarrow> game \<times> projectile list" where
  "projectileLoop dt' [] g = (g, [])"
| "projectileLoop dt' (p # ps) g =
     (let (g1, ps1) = projectileLoop dt' ps g;
          (g2, kept) = stepProjectile dt' p g1
      in (g2, case kept of None \<Rightarrow> ps1 | Some p1 \<Rightarrow> p1 # ps1))"

definition updateProjectiles :: "real \<Rightarrow> game \<Rightarrow> game" where
  "updateProjectiles dt' g =
     (let (g1, ps1) = projectileLoop dt' (projectiles g) g in g1\<lparr>projectiles := ps1\<rparr>)"

subsection \<open>Enemy behaviour\<close>

text \<open>The callback of \<^verbatim>\<open>this.enemies.forEach\<close> for the enemy behind reference \<open>r\<close>.\<close>

definition updateEnemy :: "real \<Rightarrow> nat \<Rightarrow> game \<Rightarrow> game" where
  "updateEnemy dt' r g =
     (if e_hp (objects g r) \<le> 0 then g
      else
        let playerPos = camera_position g;
            dist = distanceTo (e_position (objects g r)) playerPos
        in if dist < 25 then
             (let g1 = (if e_state (objects g r) = IDLE
                        then playSound ''alert''
                               (g\<lparr>objects := (objects g)(r := (objects g r)
                                     \<lparr>e_state := CHASE, e_map := ''enemy_chase''\<rparr>)\<rparr>)
                        else g)
              in if dist > e_attackRange (objects g1 r) then
                   (let dir = normalize (sub playerPos (e_position (objects g1 r)));
                        dir0 = Vector3 (vx dir) 0 (vz dir)
                    in g1\<lparr>objects := (objects g1)(r := (objects g1 r)
                            \<lparr>e_position := addScaledVector (e_position (objects g1 r)) dir0
                                             (e_speed (objects g1 r) * dt')\<rparr>)\<rparr>)
                 else g1\<lparr>player := (player g1)\<lparr>hp := hp (player g1) - 1 / 10\<rparr>\<rparr>)
           else g)"

definition updateEnemies :: "real \<Rightarrow> game \<Rightarrow> game" where
  "updateEnemies dt' g = foldl (\<lambda>g' r. updateEnemy dt' r g') g (enemies g)"

subsection \<open>The HUD and the frame\<close>

definition updateHUD :: "game \<Rightarrow> error + game" where
  "updateHUD g =
     (case WEAPONS (currentWeaponIdx (player g)) of
        None \<Rightarrow> Inl TypeError
      | Some weapon \<Rightarrow>
          (let faceSrc = (if hp (player g) \<le> 0 then ''assets/images/ui/face_dead.png''
                          else if hp (player g) < 50 then ''assets/images/ui/face_hurt.png''
                          else ''assets/images/ui/face_healthy.png'');
               g1 = g\<lparr>page := Some \<lparr>hud_health = \<lfloor>hp (player g)\<rfloor>,
                                     hud_armor = armor (player g),
                                     hud_ammo = (ammo_current (player g), w_name weapon),
                                     hud_face = faceSrc\<rparr>\<rparr>
           in Inr (if hp (player g) \<le> 0 then g1\<lparr>exitPointerLock := exitPointerLock g1 + 1\<rparr> else g1)))"

definition gameLoop :: "frame \<Rightarrow> game \<Rightarrow> error + game" where
  "gameLoop f g =
     (case (if isLocked f
            then (case handleShooting f (handleMovement f g) of
                    Inl e \<Rightarrow> Inl e
                  | Inr g2 \<Rightarrow> Inr (handleEnvironment f g2))
            else Inr g) of
        Inl e \<Rightarrow> Inl e
      | Inr g3 \<Rightarrow> updateHUD (updateProjectiles (dt f) (updateEnemies (dt f) g3)))"

subsection \<open>Executions\<close>

text \<open>The events of the page: an animation frame with its inputs, a key going down or up,
  a mouse button going down or up. A state is reachable when it is an initial state or
  comes from a reachable state by an event in which nothing is thrown; \<open>run\<close> runs a list
  of events from a state, and a frame that throws ends it. (No reachable state throws: see
  \<open>dispatch_total\<close> and \<open>reachable_ammo\<close> below.)\<close>

datatype event = Frame frame | Key string bool | Mouse nat bool

fun dispatch :: "event \<Rightarrow> game \<Rightarrow> error + game" where
  "dispatch (Frame f) g = gameLoop f g"
| "dispatch (Key code isDown) g = Inr (onKey code isDown g)"
| "dispatch (Mouse button isDown) g = Inr (onMouse button isDown g)"

inductive reachable :: "game \<Rightarrow> bool" where
  start: "reachable (initial loaded)"
| step: "reachable g \<Longrightarrow> dispatch ev g = Inr g' \<Longrightarrow> reachable g'"

primrec run :: "event list \<Rightarrow> game \<Rightarrow> error + game" where
  "run [] g = Inr g"
| "run (ev # evs) g = (case dispatch ev g of Inl e \<Rightarrow> Inl e | Inr g1 \<Rightarrow> run evs g1)"

subsection \<open>Invariants of the enemy and projectile arrays\<close>

text \<open>A state is \<open>sane\<close> when no reference occurs twice among the active enemies, every
  active enemy is alive and no projectile carries a negative damage. \<open>wears g g'\<close> relates
  a state to a later one: no hp is higher, no enemy outside the active set was touched,
  and no enemy entered the active set.\<close>

definition sane :: "game \<Rightarrow> bool" where
  "sane g \<longleftrightarrow>
     distinct (enemies g) \<and>
     (\<forall>e \<in> set (enemies g). 0 < e_hp (objects g e)) \<and>
     (\<forall>p \<in> set (projectiles g). 0 \<le> p_damage p)"

definition wears :: "game \<Rightarrow> game \<Rightarrow> bool" where
  "wears g g' \<longleftrightarrow>
     (\<forall>e. e_hp (objects g' e) \<le> e_hp (objects g e)) \<and>
     (\<forall>e. e \<notin> set (enemies g) \<longrightarrow> objects g' e = objects g e) \<and>
     set (enemies g') \<subseteq> set (enemies g)"

subsection \<open>Example states and frames\<close>

text \<open>\<open>fresh\<close> is the initial state with all sounds loaded: the camera is at the origin,
  2.5 below the sprites, until the first frame with control. In \<open>standing z'\<close> the player
  stands on the floor at \<open>(0, 2.5, z')\<close> with the fire button held; in \<open>facing z' t\<close> the
  view points along the negative z axis at time \<open>t\<close>, so the ray meets the first sprite,
  the secret wall and the front wall at the distances of the initial level; in
  \<open>skyward t\<close> it meets nothing. \<open>nail z' t\<close> is a nail in flight along the negative z
  axis with \<open>t\<close> seconds left.\<close>

definition fresh :: game where
  "fresh = initial (\<lambda>_. True)"

definition standing :: "real \<Rightarrow> game" where
  "standing z' = (initial (\<lambda>_. True))\<lparr>camera_position := Vector3 0 (5 / 2) z', mouseCheck_left := True\<rparr>"

definition facing :: "real \<Rightarrow> int \<Rightarrow> frame" where
  "facing z' t =
     \<lparr>dt = 1 / 60, now = t, isLocked = True, worldDirection = Vector3 0 0 (- 1),
      ray = (\<lambda>h. if h = 6 then [z' + 20]
                  else if h = 5 then [z' + 97 / 2, z' + 99 / 2]
                  else if h = 1 then [z' + 99 / 2, z' + 101 / 2]
                  else [])\<rparr>"

definition skyward :: "int \<Rightarrow> frame" where
  "skyward t = \<lparr>dt = 1 / 60, now = t, isLocked = True, worldDirection = Vector3 0 1 0, ray = (\<lambda>h. [])\<rparr>"

definition Knuckles :: weapon where
  "Knuckles = \<lparr>w_name = ''Knuckles'', w_damage = 10, w_range = 3, w_delay = 500, w_type = HITSCAN\<rparr>"


text \<open>\<open>ready\<close> is reached from the initial state by pressing the fire button and key 3 (the
  Nailgun); \<open>volley\<close> is one long frame of 0.6 seconds in which the nail is fired and
  reaches the first enemy; \<open>aimed\<close> and \<open>shot\<close> are the states inside that frame, after
  the movement and after the shot. \<open>crouched\<close> is the grounded player of \<open>aimed\<close> with the
  jump key held.\<close>

definition ready :: game where
  "ready = onKey ''Digit3'' True (onMouse 0 True (initial (\<lambda>_. True)))"

definition volley :: frame where
  "volley = \<lparr>dt = 3 / 5, now = 1000, isLocked = True, worldDirection = Vector3 0 0 (- 1),
             ray = (\<lambda>h. if h = 6 then [20]
                        else if h = 5 then [97 / 2, 99 / 2]
                        else if h = 1 then [99 / 2, 101 / 2]
                        else [])\<rparr>"

definition aimed :: game where
  "aimed = ready\<lparr>player := (player ready)\<lparr>velocity := Vector3 0 0 0, canJump := True\<rparr>,
             camera_position := Vector3 0 (5 / 2) 0\<rparr>"

definition shot :: game where
  "shot = aimed\<lparr>player := (player aimed)\<lparr>lastFireTime := 1000\<rparr>,
                audio := [''nailgun''],
                projectiles := [\<lparr>p_position = Vector3 0 (5 / 2) (- 1), p_velocity = Vector3 0 0 (- 30),
                                 p_type = PROJECTILE, p_damage = 15, p_lifetime = 2\<rparr>]\<rparr>"

definition crouched :: game where
  "crouched = onKey ''Space'' True aimed"

text \<open>In \<open>midJump\<close> the player is in the air above the origin and the first enemy,
  chasing, is exactly 20 away. \<open>apex\<close> is the top of a jump run at two frames per second:
  the camera at height 10, no vertical velocity left, not grounded; \<open>halfSecond\<close> is the
  next such frame. In \<open>cornered\<close> both enemies have closed in on the standing player, each
  1.5 away; \<open>spent\<close> is the same with the player's hp down to 0.\<close>

definition midJump :: game where
  "midJump = shot\<lparr>camera_position := Vector3 0 (5 / 2 + 96 / 29) 0,
                   objects := (objects shot)(0 := (objects shot 0)
                      \<lparr>e_position := Vector3 0 (5 / 2) (- 572 / 29), e_state := CHASE,
                       e_map := ''enemy_chase''\<rparr>)\<rparr>"

definition apex :: game where
  "apex = fresh\<lparr>camera_position := Vector3 0 10 0\<rparr>"

definition halfSecond :: frame where
  "halfSecond = \<lparr>dt = 1 / 2, now = 2000, isLocked = True, worldDirection = Vector3 0 0 (- 1),
                 ray = (\<lambda>h. [])\<rparr>"

definition cornered :: game where
  "cornered = shot\<lparr>objects := (objects shot)
      (0 := (objects shot 0)\<lparr>e_position := Vector3 0 (5 / 2) (- 3 / 2), e_state := CHASE,
                              e_map := ''enemy_chase''\<rparr>,
       1 := (objects shot 1)\<lparr>e_position := Vector3 (3 / 2) (5 / 2) 0, e_state := CHASE,
                              e_map := ''enemy_chase''\<rparr>)\<rparr>"

definition spent :: game where
  "spent = cornered\<lparr>player := (player cornered)\<lparr>hp := 0\<rparr>\<rparr>"

text \<open>\<open>hunter\<close> is reached from the initial state by pressing the fire button, key 2
  (the Shotgun) and the forward key; \<open>charge\<close> is one frame of 0.6 seconds in which the
  player runs 6 units towards the first enemy and shoots it from 14 units away;
  \<open>closing\<close> and \<open>felled\<close> are the states inside that frame, after the movement and after
  the shot.\<close>

definition hunter :: game where
  "hunter = onKey ''KeyW'' True (onKey ''Digit2'' True (onMouse 0 True (initial (\<lambda>_. True))))"

definition charge :: frame where
  "charge = \<lparr>dt = 3 / 5, now = 2000, isLocked = True, worldDirection = Vector3 0 0 (- 1),
             ray = (\<lambda>h. if h = 6 then [14]
                        else if h = 5 then [85 / 2, 87 / 2]
                        else if h = 1 then [87 / 2, 89 / 2]
                        else [])\<rparr>"

definition closing :: game where
  "closing = hunter\<lparr>player := (player hunter)\<lparr>velocity := Vector3 0 0 (- 10), canJump := True\<rparr>,
                    camera_position := Vector3 0 (5 / 2) (- 6)\<rparr>"

definition felled :: game where
  "felled = closing\<lparr>player := (player closing)\<lparr>lastFireTime := 2000\<rparr>,
                    audio := [''shotgun'', ''die''],
                    objects := (objects closing)(0 := (objects closing 0)\<lparr>e_hp := - 30\<rparr>),
                    enemies := [1]\<rparr>"


section \<open>Basic facts about the operations\<close>

lemma playSound_fields [simp]:
  "player (playSound n g) = player g"
  "enemies (playSound n g) = enemies g"
  "objects (playSound n g) = objects g"
  "projectiles (playSound n g) = projectiles g"
  "levelGeometry (playSound n g) = levelGeometry g"
  "meshes (playSound n g) = meshes g"
  "camera_position (playSound n g) = camera_position g"
  "keys (playSound n g) = keys g"
  "mouseCheck_left (playSound n g) = mouseCheck_left g"
  "sounds (playSound n g) = sounds g"
  "page (playSound n g) = page g"
  "exitPointerLock (playSound n g) = exitPointerLock g"
  by (simp_all add: playSound_def)

lemma playSound_audio:
  "audio (playSound n g) = audio g @ (if sounds g n then [n] else [])"
  by (simp add: playSound_def)

lemma killEnemy_fields [simp]:
  "player (killEnemy r g) = player g"
  "objects (killEnemy r g) = objects g"
  "projectiles (killEnemy r g) = projectiles g"
  "levelGeometry (killEnemy r g) = levelGeometry g"
  "meshes (killEnemy r g) = meshes g"
  "camera_position (killEnemy r g) = camera_position g"
  "keys (killEnemy r g) = keys g"
  "mouseCheck_left (killEnemy r g) = mouseCheck_left g"
  "sounds (killEnemy r g) = sounds g"
  "page (killEnemy r g) = page g"
  "exitPointerLock (killEnemy r g) = exitPointerLock g"
  "enemies (killEnemy r g) = remove1 r (enemies g)"
  "audio (killEnemy r g) = audio g @ (if sounds g ''die'' then [''die''] else [])"
  by (simp_all add: killEnemy_def Let_def playSound_audio)

lemma damageEnemy_fields [simp]:
  "player (damageEnemy r d g) = player g"
  "projectiles (damageEnemy r d g) = projectiles g"
  "levelGeometry (damageEnemy r d g) = levelGeometry g"
  "meshes (damageEnemy r d g) = meshes g"
  "camera_position (damageEnemy r d g) = camera_position g"
  "keys (damageEnemy r d g) = keys g"
  "mouseCheck_left (damageEnemy r d g) = mouseCheck_left g"
  "sounds (damageEnemy r d g) = sounds g"
  "page (damageEnemy r d g) = page g"
  "exitPointerLock (damageEnemy r d g) = exitPointerLock g"
  by (simp_all add: damageEnemy_def Let_def)

lemma damageEnemy_objects:
  "objects (damageEnemy r d g) = (objects g)(r := (objects g r)\<lparr>e_hp := e_hp (objects g r) - d\<rparr>)"
  by (simp add: damageEnemy_def Let_def)

lemma damageEnemy_enemies:
  "enemies (damageEnemy r d g) = (if e_hp (objects g r) - d \<le> 0 then remove1 r (enemies g) else enemies g)"
  by (simp add: damageEnemy_def Let_def)

lemma damageEnemy_audio:
  "audio (damageEnemy r d g) =
     audio g @ (if e_hp (objects g r) - d \<le> 0 \<and> sounds g ''die'' then [''die''] else [])"
  by (simp add: damageEnemy_def Let_def)

lemma fireHitscan_fields [simp]:
  "player (fireHitscan w f g) = player g"
  "projectiles (fireHitscan w f g) = projectiles g"
  "levelGeometry (fireHitscan w f g) = levelGeometry g"
  "meshes (fireHitscan w f g) = meshes g"
  "camera_position (fireHitscan w f g) = camera_position g"
  "keys (fireHitscan w f g) = keys g"
  "mouseCheck_left (fireHitscan w f g) = mouseCheck_left g"
  "sounds (fireHitscan w f g) = sounds g"
  "page (fireHitscan w f g) = page g"
  "exitPointerLock (fireHitscan w f g) = exitPointerLock g"
  by (simp_all add: fireHitscan_def Let_def split: list.split option.split)

lemma fireHitscan_audio:
  "\<exists>rest. audio (fireHitscan w f g) = audio g @ rest \<and> set rest \<subseteq> {''die''}"
  by (auto simp add: fireHitscan_def Let_def damageEnemy_audio split: list.split option.split)

lemma intersectObjects_object:
  "h \<in> set (intersectObjects rc objs) \<Longrightarrow> h_object h \<in> set objs"
  by (auto simp add: intersectObjects_def)

lemma intersectObjects_nearest:
  assumes "intersectObjects rc objs = hit # rest" and "h \<in> set (intersectObjects rc objs)"
  shows "h_distance hit \<le> h_distance h"
proof -
  have "sorted (map h_distance (intersectObjects rc objs))"
    by (simp add: intersectObjects_def)
  with assms show ?thesis by auto
qed

lemma find_mesh:
  assumes "m \<in> set (map (\<lambda>e. e_mesh (objects g e)) (enemies g))"
  shows "\<exists>e. find (\<lambda>e. e_mesh (objects g e) = m) (enemies g) = Some e \<and> e \<in> set (enemies g)
             \<and> e_mesh (objects g e) = m"
proof (cases "find (\<lambda>e. e_mesh (objects g e) = m) (enemies g)")
  case None
  with assms show ?thesis by (auto simp add: find_None_iff)
next
  case (Some e)
  then show ?thesis by (auto simp add: find_Some_iff)
qed

section \<open>The fire gate\<close>

text \<open>
  C1. For every weapon slot and every fire request (the button is held in a frame with
  control): if \<open>now - lastFireTime \<le> delay\<close> the request has no effect at all, the state is
  unchanged; if \<open>now - lastFireTime > delay\<close> then \<open>lastFireTime\<close> becomes \<open>now\<close>, the cue of
  the slot is handed to \<open>playSound\<close> once, before the resolution (so the audio output is
  extended by that cue, when its buffer was loaded, followed only by what the resolution
  itself plays), and exactly one resolution takes place: the hitscan for a HITSCAN weapon,
  which spawns no projectile, and otherwise one new projectile, which touches no enemy.
\<close>

theorem fire_gate:
  assumes "mouseCheck_left g" and "WEAPONS (currentWeaponIdx (player g)) = Some weapon"
  shows "(now f - lastFireTime (player g) \<le> w_delay weapon \<longrightarrow> handleShooting f g = Inr g) \<and>
         (now f - lastFireTime (player g) > w_delay weapon \<longrightarrow>
            (\<exists>g'. handleShooting f g = Inr g' \<and>
               g' = (if w_type weapon = HITSCAN then fireHitscan weapon f else fireProjectile weapon f)
                      (playSound (sfxMap ! currentWeaponIdx (player g))
                         (g\<lparr>player := (player g)\<lparr>lastFireTime := now f\<rparr>\<rparr>)) \<and>
               lastFireTime (player g') = now f \<and>
               (\<exists>rest. audio g' =
                   audio g @ (if sounds g (sfxMap ! currentWeaponIdx (player g))
                              then [sfxMap ! currentWeaponIdx (player g)] else []) @ rest
                   \<and> set rest \<subseteq> {''die''}) \<and>
               (w_type weapon = HITSCAN \<longrightarrow> projectiles g' = projectiles g) \<and>
               (w_type weapon \<noteq> HITSCAN \<longrightarrow>
                  enemies g' = enemies g \<and> objects g' = objects g \<and>
                  (\<exists>p. projectiles g' = projectiles g @ [p]))))"
proof (intro conjI impI)
  assume "now f - lastFireTime (player g) \<le> w_delay weapon"
  with assms show "handleShooting f g = Inr g"
    by (simp add: handleShooting_def)
next
  assume honoured: "now f - lastFireTime (player g) > w_delay weapon"
  let ?g2 = "playSound (sfxMap ! currentWeaponIdx (player g))
               (g\<lparr>player := (player g)\<lparr>lastFireTime := now f\<rparr>\<rparr>)"
  let ?g' = "(if w_type weapon = HITSCAN then fireHitscan weapon f else fireProjectile weapon f) ?g2"
  have run: "handleShooting f g = Inr ?g'"
    using assms honoured by (simp add: handleShooting_def Let_def)
  have a2: "audio ?g2 = audio g @ (if sounds g (sfxMap ! currentWeaponIdx (player g))
                              then [sfxMap ! currentWeaponIdx (player g)] else [])"
    by (simp add: playSound_audio)
  obtain rest where rest: "audio (fireHitscan weapon f ?g2) = audio ?g2 @ rest" "set rest \<subseteq> {''die''}"
    using fireHitscan_audio by blast
  have au: "\<exists>rest. audio ?g' =
                   audio g @ (if sounds g (sfxMap ! currentWeaponIdx (player g))
                              then [sfxMap ! currentWeaponIdx (player g)] else []) @ rest
                   \<and> set rest \<subseteq> {''die''}"
  proof (cases "w_type weapon = HITSCAN")
    case True
    then show ?thesis using rest a2 by auto
  next
    case False
    then show ?thesis using a2 by (simp add: fireProjectile_def)
  qed
  show "\<exists>g'. handleShooting f g = Inr g' \<and>
               g' = (if w_type weapon = HITSCAN then fireHitscan weapon f else fireProjectile weapon f)
                      (playSound (sfxMap ! currentWeaponIdx (player g))
                         (g\<lparr>player := (player g)\<lparr>lastFireTime := now f\<rparr>\<rparr>)) \<and>
               lastFireTime (player g') = now f \<and>
               (\<exists>rest. audio g' =
                   audio g @ (if sounds g (sfxMap ! currentWeaponIdx (player g))
                              then [sfxMap ! currentWeaponIdx (player g)] else []) @ rest
                   \<and> set rest \<subseteq> {''die''}) \<and>
               (w_type weapon = HITSCAN \<longrightarrow> projectiles g' = projectiles g) \<and>
               (w_type weapon \<noteq> HITSCAN \<longrightarrow>
                  enemies g' = enemies g \<and> objects g' = objects g \<and>
                  (\<exists>p. projectiles g' = projectiles g @ [p]))"
    apply (rule exI[of _ ?g'])
    apply (intro conjI)
         apply (rule run)
        apply (rule refl)
       apply (simp add: fireProjectile_def)
      apply (rule au)
     apply simp
    apply (simp add: fireProjectile_def)
    done
qed

theorem fire_gate_witness:
  "handleShooting (facing (- 18) 500) (standing (- 18)) = Inr (standing (- 18)) \<and>
   (\<exists>g'. handleShooting (facing (- 18) 501) (standing (- 18)) = Inr g' \<and>
         lastFireTime (player g') = 501 \<and> audio g' = [''punch''] \<and>
         e_hp (objects g' 0) = 40 \<and> projectiles g' = [])"
proof -
  have pressed: "mouseCheck_left (standing (- 18))"
    by (simp add: standing_def)
  have slot: "WEAPONS (currentWeaponIdx (player (standing (- 18)))) = Some Knuckles"
    by (simp add: standing_def initial_def WEAPONS_def Knuckles_def)
  have early: "handleShooting (facing (- 18) 500) (standing (- 18)) = Inr (standing (- 18))"
    using fire_gate [OF pressed slot, of "facing (- 18) 500"]
    by (simp add: standing_def initial_def facing_def Knuckles_def)
  have late: "now (facing (- 18) 501) - lastFireTime (player (standing (- 18))) > w_delay Knuckles"
    by (simp add: standing_def initial_def facing_def Knuckles_def)
  from fire_gate [OF pressed slot, of "facing (- 18) 501"] late
  obtain g' where g': "handleShooting (facing (- 18) 501) (standing (- 18)) = Inr g'"
     "g' = (if w_type Knuckles = HITSCAN then fireHitscan Knuckles (facing (- 18) 501)
            else fireProjectile Knuckles (facing (- 18) 501))
             (playSound (sfxMap ! currentWeaponIdx (player (standing (- 18))))
                ((standing (- 18))\<lparr>player := (player (standing (- 18)))
                     \<lparr>lastFireTime := now (facing (- 18) 501)\<rparr>\<rparr>))"
    by blast
  have "lastFireTime (player g') = 501 \<and> audio g' = [''punch''] \<and> e_hp (objects g' 0) = 40
        \<and> projectiles g' = []"
    unfolding g'(2)
    by (simp add: standing_def initial_def facing_def sfxMap_def playSound_def fireHitscan_def
        intersectObjects_def spawned_def damageEnemy_def Let_def Knuckles_def)
  with early g'(1) show ?thesis by blast
qed

section \<open>Hitscan\<close>

text \<open>
  C2. For every hitscan shot, with \<open>hits\<close> the ordered answer of the ray query against the
  sprites of the active enemies: without a hit nothing changes; otherwise the first hit
  is a nearest one, and the weapon's damage is subtracted from the hp of the enemy whose
  sprite it is (and of no other enemy) if and only if its distance is at most the
  weapon's range; beyond the range the state, hence every hp, is unchanged.
\<close>

theorem hitscan_damage:
  "(let hits = intersectObjects (ray f) (map (\<lambda>e. e_mesh (objects g e)) (enemies g)) in
      (hits = [] \<longrightarrow> fireHitscan weapon f g = g) \<and>
      (\<forall>hit rest. hits = hit # rest \<longrightarrow>
         (\<forall>h \<in> set hits. h_distance hit \<le> h_distance h) \<and>
         (\<not> h_distance hit \<le> w_range weapon \<longrightarrow> fireHitscan weapon f g = g) \<and>
         (h_distance hit \<le> w_range weapon \<longrightarrow>
            (\<exists>e \<in> set (enemies g).
                e_mesh (objects g e) = h_object hit \<and>
                fireHitscan weapon f g = damageEnemy e (w_damage weapon) g \<and>
                e_hp (objects (fireHitscan weapon f g) e) = e_hp (objects g e) - w_damage weapon \<and>
                (\<forall>e'. e' \<noteq> e \<longrightarrow> objects (fireHitscan weapon f g) e' = objects g e')))))"
proof -
  let ?hits = "intersectObjects (ray f) (map (\<lambda>e. e_mesh (objects g e)) (enemies g))"
  have miss: "?hits = [] \<longrightarrow> fireHitscan weapon f g = g"
    by (simp add: fireHitscan_def)
  have some: "(\<forall>h \<in> set ?hits. h_distance hit \<le> h_distance h) \<and>
         (\<not> h_distance hit \<le> w_range weapon \<longrightarrow> fireHitscan weapon f g = g) \<and>
         (h_distance hit \<le> w_range weapon \<longrightarrow>
            (\<exists>e \<in> set (enemies g).
                e_mesh (objects g e) = h_object hit \<and>
                fireHitscan weapon f g = damageEnemy e (w_damage weapon) g \<and>
                e_hp (objects (fireHitscan weapon f g) e) = e_hp (objects g e) - w_damage weapon \<and>
                (\<forall>e'. e' \<noteq> e \<longrightarrow> objects (fireHitscan weapon f g) e' = objects g e')))"
    if hs: "?hits = hit # rest" for hit rest
  proof (intro conjI impI ballI)
    fix h assume "h \<in> set ?hits"
    with hs show "h_distance hit \<le> h_distance h"
      using intersectObjects_nearest by blast
  next
    assume "\<not> h_distance hit \<le> w_range weapon"
    with hs show "fireHitscan weapon f g = g"
      by (simp add: fireHitscan_def)
  next
    assume near: "h_distance hit \<le> w_range weapon"
    have "hit \<in> set ?hits" using hs by simp
    then have "h_object hit \<in> set (map (\<lambda>e. e_mesh (objects g e)) (enemies g))"
      by (rule intersectObjects_object)
    then obtain e where e: "find (\<lambda>e. e_mesh (objects g e) = h_object hit) (enemies g) = Some e"
        "e \<in> set (enemies g)" "e_mesh (objects g e) = h_object hit"
      using find_mesh by blast
    have run: "fireHitscan weapon f g = damageEnemy e (w_damage weapon) g"
      using hs near e(1) by (simp add: fireHitscan_def)
    show "\<exists>e \<in> set (enemies g).
                e_mesh (objects g e) = h_object hit \<and>
                fireHitscan weapon f g = damageEnemy e (w_damage weapon) g \<and>
                e_hp (objects (fireHitscan weapon f g) e) = e_hp (objects g e) - w_damage weapon \<and>
                (\<forall>e'. e' \<noteq> e \<longrightarrow> objects (fireHitscan weapon f g) e' = objects g e')"
      using e(2,3) run by (auto simp add: damageEnemy_objects)
  qed
  show ?thesis
    unfolding Let_def using miss some by blast
qed

theorem hitscan_damage_witness:
  "e_hp (objects (fireHitscan Knuckles (facing (- 18) 0) (standing (- 18))) 0) = 40 \<and>
   fireHitscan Knuckles (facing (- 10) 0) (standing (- 10)) = standing (- 10) \<and>
   fireHitscan Knuckles (skyward 0) (standing (- 18)) = standing (- 18)"
proof -
  have near: "e_hp (objects (fireHitscan Knuckles (facing (- 18) 0) (standing (- 18))) 0) = 40"
    using hitscan_damage [of "facing (- 18) 0" "standing (- 18)" Knuckles]
    by (simp add: Let_def standing_def initial_def facing_def intersectObjects_def spawned_def
        Knuckles_def fireHitscan_def damageEnemy_def)
  have far: "fireHitscan Knuckles (facing (- 10) 0) (standing (- 10)) = standing (- 10)"
    using hitscan_damage [of "facing (- 10) 0" "standing (- 10)" Knuckles]
    by (simp add: Let_def standing_def initial_def facing_def intersectObjects_def spawned_def
        Knuckles_def fireHitscan_def damageEnemy_def)
  have none: "fireHitscan Knuckles (skyward 0) (standing (- 18)) = standing (- 18)"
    using hitscan_damage [of "skyward 0" "standing (- 18)" Knuckles]
    by (simp add: Let_def standing_def initial_def skyward_def intersectObjects_def fireHitscan_def)
  from near far none show ?thesis by blast
qed

subsection \<open>Distances\<close>

lemma sqrt_less_iff: "0 \<le> b \<Longrightarrow> (sqrt a < b) = (a < b * b)"
  by (metis abs_of_nonneg real_sqrt_abs2 real_sqrt_less_iff)

lemma less_sqrt_iff: "0 \<le> b \<Longrightarrow> (b < sqrt a) = (b * b < a)"
  by (metis abs_of_nonneg real_sqrt_abs2 real_sqrt_less_iff)

lemma distanceTo_less: "0 \<le> b \<Longrightarrow> (distanceTo p q < b) = (distanceToSquared p q < b * b)"
  by (simp add: distanceTo_def sqrt_less_iff)

lemma less_distanceTo: "0 \<le> b \<Longrightarrow> (b < distanceTo p q) = (b * b < distanceToSquared p q)"
  by (simp add: distanceTo_def less_sqrt_iff)


section \<open>Projectiles\<close>



section \<open>Enemy hp along executions\<close>

lemma wears_refl: "wears g g"
  by (simp add: wears_def)

lemma wears_trans:
  assumes "wears g g1" and "wears g1 g2"
  shows "wears g g2"
proof -
  have "e_hp (objects g2 e) \<le> e_hp (objects g e)" for e
    using assms unfolding wears_def by (meson order_trans)
  moreover have "objects g2 e = objects g e" if "e \<notin> set (enemies g)" for e
  proof -
    from that assms(1) have "e \<notin> set (enemies g1)" "objects g1 e = objects g e"
      unfolding wears_def by auto
    with assms(2) show ?thesis unfolding wears_def by auto
  qed
  moreover have "set (enemies g2) \<subseteq> set (enemies g)"
    using assms unfolding wears_def by blast
  ultimately show ?thesis unfolding wears_def by blast
qed

lemma wears_same:
  "objects g' = objects g \<Longrightarrow> enemies g' = enemies g \<Longrightarrow> wears g g'"
  by (simp add: wears_def)

lemma sane_same:
  "sane g \<Longrightarrow> objects g' = objects g \<Longrightarrow> enemies g' = enemies g \<Longrightarrow>
   projectiles g' = projectiles g \<Longrightarrow> sane g'"
  by (simp add: sane_def)

lemma WEAPONS_damage: "WEAPONS i = Some w \<Longrightarrow> 0 \<le> w_damage w"
  by (auto simp add: WEAPONS_def split: if_splits)

lemma WEAPONS_defined: "(\<exists>w. WEAPONS i = Some w) = (i < 4)"
  by (auto simp add: WEAPONS_def)

lemma damageEnemy_sane:
  assumes "sane g" and "0 \<le> d"
  shows "sane (damageEnemy e d g)"
proof (cases "e_hp (objects g e) - d \<le> 0")
  case True
  have "e \<notin> set (remove1 e (enemies g))"
    using assms(1) by (simp add: sane_def)
  moreover have "set (remove1 e (enemies g)) \<subseteq> set (enemies g)"
    by (rule set_remove1_subset)
  ultimately show ?thesis
    using assms True
    by (auto simp add: sane_def damageEnemy_objects damageEnemy_enemies)
next
  case False
  then show ?thesis
    using assms by (simp add: sane_def damageEnemy_objects damageEnemy_enemies)
qed

lemma damageEnemy_wears:
  assumes "0 \<le> d" and "e \<in> set (enemies g)"
  shows "wears g (damageEnemy e d g)"
proof -
  have "set (remove1 e (enemies g)) \<subseteq> set (enemies g)"
    by (rule set_remove1_subset)
  then show ?thesis
    using assms by (auto simp add: wears_def damageEnemy_objects damageEnemy_enemies)
qed

lemma handleMovement_fields [simp]:
  "enemies (handleMovement f g) = enemies g"
  "objects (handleMovement f g) = objects g"
  "projectiles (handleMovement f g) = projectiles g"
  "levelGeometry (handleMovement f g) = levelGeometry g"
  "meshes (handleMovement f g) = meshes g"
  "keys (handleMovement f g) = keys g"
  "mouseCheck_left (handleMovement f g) = mouseCheck_left g"
  "sounds (handleMovement f g) = sounds g"
  "audio (handleMovement f g) = audio g"
  "page (handleMovement f g) = page g"
  "exitPointerLock (handleMovement f g) = exitPointerLock g"
  by (simp_all add: handleMovement_def Let_def)

lemma handleMovement_player [simp]:
  "hp (player (handleMovement f g)) = hp (player g)"
  "armor (player (handleMovement f g)) = armor (player g)"
  "ammo_current (player (handleMovement f g)) = ammo_current (player g)"
  "ammo_max (player (handleMovement f g)) = ammo_max (player g)"
  "currentWeaponIdx (player (handleMovement f g)) = currentWeaponIdx (player g)"
  "lastFireTime (player (handleMovement f g)) = lastFireTime (player g)"
  by (simp_all add: handleMovement_def Let_def)

lemma handleEnvironment_fields [simp]:
  "player (handleEnvironment f g) = player g"
  "enemies (handleEnvironment f g) = enemies g"
  "objects (handleEnvironment f g) = objects g"
  "projectiles (handleEnvironment f g) = projectiles g"
  "levelGeometry (handleEnvironment f g) = levelGeometry g"
  "camera_position (handleEnvironment f g) = camera_position g"
  "keys (handleEnvironment f g) = keys g"
  "mouseCheck_left (handleEnvironment f g) = mouseCheck_left g"
  "sounds (handleEnvironment f g) = sounds g"
  "audio (handleEnvironment f g) = audio g"
  "page (handleEnvironment f g) = page g"
  "exitPointerLock (handleEnvironment f g) = exitPointerLock g"
  by (simp_all add: handleEnvironment_def split: list.split)

lemma fireProjectile_fields [simp]:
  "player (fireProjectile w f g) = player g"
  "enemies (fireProjectile w f g) = enemies g"
  "objects (fireProjectile w f g) = objects g"
  "levelGeometry (fireProjectile w f g) = levelGeometry g"
  "meshes (fireProjectile w f g) = meshes g"
  "camera_position (fireProjectile w f g) = camera_position g"
  "keys (fireProjectile w f g) = keys g"
  "mouseCheck_left (fireProjectile w f g) = mouseCheck_left g"
  "sounds (fireProjectile w f g) = sounds g"
  "audio (fireProjectile w f g) = audio g"
  "page (fireProjectile w f g) = page g"
  "exitPointerLock (fireProjectile w f g) = exitPointerLock g"
  by (simp_all add: fireProjectile_def)

lemma updateEnemy_fields [simp]:
  "enemies (updateEnemy d r g) = enemies g"
  "projectiles (updateEnemy d r g) = projectiles g"
  "levelGeometry (updateEnemy d r g) = levelGeometry g"
  "meshes (updateEnemy d r g) = meshes g"
  "camera_position (updateEnemy d r g) = camera_position g"
  "keys (updateEnemy d r g) = keys g"
  "mouseCheck_left (updateEnemy d r g) = mouseCheck_left g"
  "sounds (updateEnemy d r g) = sounds g"
  "page (updateEnemy d r g) = page g"
  "exitPointerLock (updateEnemy d r g) = exitPointerLock g"
  by (simp_all add: updateEnemy_def Let_def)

lemma updateEnemy_player [simp]:
  "armor (player (updateEnemy d r g)) = armor (player g)"
  "ammo_current (player (updateEnemy d r g)) = ammo_current (player g)"
  "ammo_max (player (updateEnemy d r g)) = ammo_max (player g)"
  "velocity (player (updateEnemy d r g)) = velocity (player g)"
  "canJump (player (updateEnemy d r g)) = canJump (player g)"
  "currentWeaponIdx (player (updateEnemy d r g)) = currentWeaponIdx (player g)"
  "lastFireTime (player (updateEnemy d r g)) = lastFireTime (player g)"
  by (simp_all add: updateEnemy_def Let_def)

lemma updateEnemy_other: "e \<noteq> r \<Longrightarrow> objects (updateEnemy d r g) e = objects g e"
  by (simp add: updateEnemy_def Let_def)

lemma updateEnemy_kept [simp]:
  "e_hp (objects (updateEnemy d r g) e) = e_hp (objects g e)"
  "e_mesh (objects (updateEnemy d r g) e) = e_mesh (objects g e)"
  "e_speed (objects (updateEnemy d r g) e) = e_speed (objects g e)"
  "e_attackRange (objects (updateEnemy d r g) e) = e_attackRange (objects g e)"
  by (simp_all add: updateEnemy_def Let_def)

lemma foldl_updateEnemy_fields [simp]:
  "enemies (foldl (\<lambda>g' r. updateEnemy d r g') g rs) = enemies g"
  "projectiles (foldl (\<lambda>g' r. updateEnemy d r g') g rs) = projectiles g"
  "levelGeometry (foldl (\<lambda>g' r. updateEnemy d r g') g rs) = levelGeometry g"
  "meshes (foldl (\<lambda>g' r. updateEnemy d r g') g rs) = meshes g"
  "camera_position (foldl (\<lambda>g' r. updateEnemy d r g') g rs) = camera_position g"
  "keys (foldl (\<lambda>g' r. updateEnemy d r g') g rs) = keys g"
  "mouseCheck_left (foldl (\<lambda>g' r. updateEnemy d r g') g rs) = mouseCheck_left g"
  "sounds (foldl (\<lambda>g' r. updateEnemy d r g') g rs) = sounds g"
  "page (foldl (\<lambda>g' r. updateEnemy d r g') g rs) = page g"
  "exitPointerLock (foldl (\<lambda>g' r. updateEnemy d r g') g rs) = exitPointerLock g"
  by (induction rs arbitrary: g; simp)+

lemma foldl_updateEnemy_player [simp]:
  "armor (player (foldl (\<lambda>g' r. updateEnemy d r g') g rs)) = armor (player g)"
  "ammo_current (player (foldl (\<lambda>g' r. updateEnemy d r g') g rs)) = ammo_current (player g)"
  "ammo_max (player (foldl (\<lambda>g' r. updateEnemy d r g') g rs)) = ammo_max (player g)"
  "velocity (player (foldl (\<lambda>g' r. updateEnemy d r g') g rs)) = velocity (player g)"
  "canJump (player (foldl (\<lambda>g' r. updateEnemy d r g') g rs)) = canJump (player g)"
  "currentWeaponIdx (player (foldl (\<lambda>g' r. updateEnemy d r g') g rs)) = currentWeaponIdx (player g)"
  "lastFireTime (player (foldl (\<lambda>g' r. updateEnemy d r g') g rs)) = lastFireTime (player g)"
  by (induction rs arbitrary: g; simp)+

lemma foldl_updateEnemy_kept [simp]:
  "e_hp (objects (foldl (\<lambda>g' r. updateEnemy d r g') g rs) e) = e_hp (objects g e)"
  "e_mesh (objects (foldl (\<lambda>g' r. updateEnemy d r g') g rs) e) = e_mesh (objects g e)"
  "e_speed (objects (foldl (\<lambda>g' r. updateEnemy d r g') g rs) e) = e_speed (objects g e)"
  "e_attackRange (objects (foldl (\<lambda>g' r. updateEnemy d r g') g rs) e) = e_attackRange (objects g e)"
  by (induction rs arbitrary: g; simp)+

lemma foldl_updateEnemy_other:
  "e \<notin> set rs \<Longrightarrow> objects (foldl (\<lambda>g' r. updateEnemy d r g') g rs) e = objects g e"
  by (induction rs arbitrary: g) (simp_all add: updateEnemy_other)

lemma updateEnemies_fields [simp]:
  "enemies (updateEnemies d g) = enemies g"
  "projectiles (updateEnemies d g) = projectiles g"
  "levelGeometry (updateEnemies d g) = levelGeometry g"
  "meshes (updateEnemies d g) = meshes g"
  "camera_position (updateEnemies d g) = camera_position g"
  "keys (updateEnemies d g) = keys g"
  "mouseCheck_left (updateEnemies d g) = mouseCheck_left g"
  "sounds (updateEnemies d g) = sounds g"
  "page (updateEnemies d g) = page g"
  "exitPointerLock (updateEnemies d g) = exitPointerLock g"
  "armor (player (updateEnemies d g)) = armor (player g)"
  "ammo_current (player (updateEnemies d g)) = ammo_current (player g)"
  "ammo_max (player (updateEnemies d g)) = ammo_max (player g)"
  "velocity (player (updateEnemies d g)) = velocity (player g)"
  "canJump (player (updateEnemies d g)) = canJump (player g)"
  "currentWeaponIdx (player (updateEnemies d g)) = currentWeaponIdx (player g)"
  "lastFireTime (player (updateEnemies d g)) = lastFireTime (player g)"
  "e_hp (objects (updateEnemies d g) e) = e_hp (objects g e)"
  "e_mesh (objects (updateEnemies d g) e) = e_mesh (objects g e)"
  by (simp_all add: updateEnemies_def)

lemma updateEnemies_other:
  "e \<notin> set (enemies g) \<Longrightarrow> objects (updateEnemies d g) e = objects g e"
  by (simp add: updateEnemies_def foldl_updateEnemy_other)

lemma stepProjectile_fields [simp]:
  "player (fst (stepProjectile d p g)) = player g"
  "levelGeometry (fst (stepProjectile d p g)) = levelGeometry g"
  "meshes (fst (stepProjectile d p g)) = meshes g"
  "camera_position (fst (stepProjectile d p g)) = camera_position g"
  "keys (fst (stepProjectile d p g)) = keys g"
  "mouseCheck_left (fst (stepProjectile d p g)) = mouseCheck_left g"
  "sounds (fst (stepProjectile d p g)) = sounds g"
  "page (fst (stepProjectile d p g)) = page g"
  "exitPointerLock (fst (stepProjectile d p g)) = exitPointerLock g"
  "projectiles (fst (stepProjectile d p g)) = projectiles g"
  by (simp_all add: stepProjectile_def Let_def split: option.split)

lemma stepProjectile_damage:
  "snd (stepProjectile d p g) = Some p1 \<Longrightarrow> p_damage p1 = p_damage p"
  by (auto simp add: stepProjectile_def Let_def split: option.splits if_splits)

lemma stepProjectile_sane:
  assumes "sane g" and "0 \<le> p_damage p"
  shows "sane (fst (stepProjectile d p g))"
  using assms by (simp add: stepProjectile_def Let_def damageEnemy_sane split: option.split)

lemma stepProjectile_wears:
  assumes "0 \<le> p_damage p"
  shows "wears g (fst (stepProjectile d p g))"
proof (cases "find (\<lambda>e. distanceTo (addScaledVector (p_position p) (p_velocity p) d)
                 (e_position (objects g e)) < 2) (enemies g)")
  case None
  then show ?thesis by (simp add: stepProjectile_def Let_def wears_refl)
next
  case (Some e)
  then have "e \<in> set (enemies g)"
    by (auto simp add: find_Some_iff)
  with Some assms show ?thesis
    by (simp add: stepProjectile_def Let_def damageEnemy_wears)
qed

lemma projectileLoop_fields [simp]:
  "player (fst (projectileLoop d ps g)) = player g"
  "levelGeometry (fst (projectileLoop d ps g)) = levelGeometry g"
  "meshes (fst (projectileLoop d ps g)) = meshes g"
  "camera_position (fst (projectileLoop d ps g)) = camera_position g"
  "keys (fst (projectileLoop d ps g)) = keys g"
  "mouseCheck_left (fst (projectileLoop d ps g)) = mouseCheck_left g"
  "sounds (fst (projectileLoop d ps g)) = sounds g"
  "page (fst (projectileLoop d ps g)) = page g"
  "exitPointerLock (fst (projectileLoop d ps g)) = exitPointerLock g"
  "projectiles (fst (projectileLoop d ps g)) = projectiles g"
  by (induction ps; simp add: Let_def split_beta)+

lemma projectileLoop_sane:
  assumes "sane g" and "\<forall>p \<in> set ps. 0 \<le> p_damage p"
  shows "sane (fst (projectileLoop d ps g)) \<and> wears g (fst (projectileLoop d ps g)) \<and>
         (\<forall>p \<in> set (snd (projectileLoop d ps g)). 0 \<le> p_damage p)"
  using assms
proof (induction ps)
  case Nil
  then show ?case by (simp add: wears_refl)
next
  case (Cons p ps)
  let ?g1 = "fst (projectileLoop d ps g)"
  from Cons have ih: "sane ?g1" "wears g ?g1" "\<forall>q \<in> set (snd (projectileLoop d ps g)). 0 \<le> p_damage q"
    by simp_all
  from Cons.prems have pd: "0 \<le> p_damage p" by simp
  have s: "sane (fst (stepProjectile d p ?g1))"
    using ih(1) pd by (rule stepProjectile_sane)
  have w: "wears g (fst (stepProjectile d p ?g1))"
    using ih(2) stepProjectile_wears [OF pd] by (rule wears_trans)
  have k: "\<forall>q \<in> set (case snd (stepProjectile d p ?g1) of None \<Rightarrow> snd (projectileLoop d ps g)
                           | Some p1 \<Rightarrow> p1 # snd (projectileLoop d ps g)). 0 \<le> p_damage q"
    using ih(3) pd by (auto split: option.split dest: stepProjectile_damage)
  from s w k show ?case
    by (simp add: Let_def split_beta)
qed

lemma updateProjectiles_fields [simp]:
  "player (updateProjectiles d g) = player g"
  "levelGeometry (updateProjectiles d g) = levelGeometry g"
  "meshes (updateProjectiles d g) = meshes g"
  "camera_position (updateProjectiles d g) = camera_position g"
  "keys (updateProjectiles d g) = keys g"
  "mouseCheck_left (updateProjectiles d g) = mouseCheck_left g"
  "sounds (updateProjectiles d g) = sounds g"
  "page (updateProjectiles d g) = page g"
  "exitPointerLock (updateProjectiles d g) = exitPointerLock g"
  by (simp_all add: updateProjectiles_def Let_def split_beta)

lemma updateProjectiles_sane:
  assumes "sane g"
  shows "sane (updateProjectiles d g) \<and> wears g (updateProjectiles d g)"
proof -
  have "\<forall>p \<in> set (projectiles g). 0 \<le> p_damage p"
    using assms by (simp add: sane_def)
  from projectileLoop_sane [OF assms this, of d] show ?thesis
    by (simp add: updateProjectiles_def split_beta sane_def wears_def)
qed

lemma fireHitscan_cases:
  "fireHitscan w f g = g \<or> (\<exists>e \<in> set (enemies g). fireHitscan w f g = damageEnemy e (w_damage w) g)"
  by (auto simp add: fireHitscan_def Let_def find_Some_iff split: list.split option.split)

lemma fireHitscan_sane:
  assumes "sane g" and "0 \<le> w_damage w"
  shows "sane (fireHitscan w f g) \<and> wears g (fireHitscan w f g)"
  using fireHitscan_cases [of w f g] assms
  by (auto simp add: wears_refl damageEnemy_sane damageEnemy_wears)

lemma handleShooting_sane:
  assumes "sane g" and "handleShooting f g = Inr g'"
  shows "sane g' \<and> wears g g'"
proof (cases "mouseCheck_left g")
  case False
  with assms show ?thesis by (simp add: handleShooting_def wears_refl)
next
  case True
  with assms(2) obtain w where w: "WEAPONS (currentWeaponIdx (player g)) = Some w"
    by (auto simp add: handleShooting_def split: option.splits)
  show ?thesis
  proof (cases "now f - lastFireTime (player g) > w_delay w")
    case False
    with True w assms show ?thesis by (simp add: handleShooting_def wears_refl)
  next
    case fired: True
    let ?g2 = "playSound (sfxMap ! currentWeaponIdx (player g))
                 (g\<lparr>player := (player g)\<lparr>lastFireTime := now f\<rparr>\<rparr>)"
    have s2: "sane ?g2" using assms(1) by (rule sane_same) simp_all
    have w2: "wears g ?g2" by (rule wears_same) simp_all
    have g': "g' = (if w_type w = HITSCAN then fireHitscan w f ?g2 else fireProjectile w f ?g2)"
      using True w fired assms(2) by (auto simp add: handleShooting_def Let_def)
    show ?thesis
    proof (cases "w_type w = HITSCAN")
      case True
      from fireHitscan_sane [OF s2 WEAPONS_damage [OF w], of f] w2 True g'
      show ?thesis by (auto intro: wears_trans)
    next
      case False
      have "sane (fireProjectile w f ?g2)"
        using s2 WEAPONS_damage [OF w] by (simp add: sane_def fireProjectile_def)
      moreover have "wears g (fireProjectile w f ?g2)"
        by (rule wears_same) simp_all
      ultimately show ?thesis using False g' by simp
    qed
  qed
qed

lemma updateHUD_fields:
  assumes "updateHUD g = Inr g'"
  shows "player g' = player g" "enemies g' = enemies g" "objects g' = objects g"
    "projectiles g' = projectiles g" "levelGeometry g' = levelGeometry g" "meshes g' = meshes g"
    "camera_position g' = camera_position g" "keys g' = keys g"
    "mouseCheck_left g' = mouseCheck_left g" "sounds g' = sounds g" "audio g' = audio g"
  using assms by (auto simp add: updateHUD_def Let_def split: option.splits if_splits)

lemma gameLoop_sane:
  assumes "sane g" and "gameLoop f g = Inr g'"
  shows "sane g' \<and> wears g g'"
proof -
  obtain g3 where g3: "(if isLocked f
            then (case handleShooting f (handleMovement f g) of
                    Inl e \<Rightarrow> Inl e
                  | Inr g2 \<Rightarrow> Inr (handleEnvironment f g2))
            else Inr g) = Inr g3"
    and hud: "updateHUD (updateProjectiles (dt f) (updateEnemies (dt f) g3)) = Inr g'"
    using assms(2) by (auto simp add: gameLoop_def split: sum.splits)
  have a: "sane g3 \<and> wears g g3"
  proof (cases "isLocked f")
    case False
    with g3 assms(1) show ?thesis by (simp add: wears_refl)
  next
    case True
    with g3 obtain g2 where g2: "handleShooting f (handleMovement f g) = Inr g2"
      and e: "g3 = handleEnvironment f g2"
      by (auto split: sum.splits)
    have "sane (handleMovement f g)" using assms(1) by (rule sane_same) simp_all
    from handleShooting_sane [OF this g2] have "sane g2" "wears (handleMovement f g) g2" by simp_all
    moreover have "wears g (handleMovement f g)" by (rule wears_same) simp_all
    ultimately have "sane g2" "wears g g2" by (auto intro: wears_trans)
    moreover have "sane g3" using \<open>sane g2\<close> unfolding e by (rule sane_same) simp_all
    moreover have "wears g2 g3" unfolding e by (rule wears_same) simp_all
    ultimately show ?thesis by (auto intro: wears_trans)
  qed
  let ?g4 = "updateEnemies (dt f) g3"
  have s4: "sane ?g4" using a by (simp add: sane_def)
  have w4: "wears g3 ?g4" by (simp add: wears_def updateEnemies_other)
  from updateProjectiles_sane [OF s4, of "dt f"]
  have s5: "sane (updateProjectiles (dt f) ?g4)" and w5: "wears ?g4 (updateProjectiles (dt f) ?g4)"
    by simp_all
  have s6: "sane g'" using s5 updateHUD_fields [OF hud] by (simp add: sane_def)
  have w6: "wears (updateProjectiles (dt f) ?g4) g'"
    using updateHUD_fields [OF hud] by (simp add: wears_def)
  from a w4 w5 w6 have "wears g g'" by (blast intro: wears_trans)
  with s6 show ?thesis by simp
qed

lemma onKey_fields [simp]:
  "enemies (onKey c b g) = enemies g" "objects (onKey c b g) = objects g"
  "projectiles (onKey c b g) = projectiles g" "levelGeometry (onKey c b g) = levelGeometry g"
  "meshes (onKey c b g) = meshes g" "camera_position (onKey c b g) = camera_position g"
  "mouseCheck_left (onKey c b g) = mouseCheck_left g" "sounds (onKey c b g) = sounds g"
  "audio (onKey c b g) = audio g" "page (onKey c b g) = page g"
  "exitPointerLock (onKey c b g) = exitPointerLock g"
  "hp (player (onKey c b g)) = hp (player g)" "armor (player (onKey c b g)) = armor (player g)"
  "ammo_current (player (onKey c b g)) = ammo_current (player g)"
  "ammo_max (player (onKey c b g)) = ammo_max (player g)"
  "velocity (player (onKey c b g)) = velocity (player g)"
  "canJump (player (onKey c b g)) = canJump (player g)"
  "lastFireTime (player (onKey c b g)) = lastFireTime (player g)"
  by (simp_all add: onKey_def switchWeapon_def)

lemma onMouse_fields [simp]:
  "player (onMouse n b g) = player g"
  "enemies (onMouse n b g) = enemies g" "objects (onMouse n b g) = objects g"
  "projectiles (onMouse n b g) = projectiles g" "levelGeometry (onMouse n b g) = levelGeometry g"
  "meshes (onMouse n b g) = meshes g" "camera_position (onMouse n b g) = camera_position g"
  "keys (onMouse n b g) = keys g" "sounds (onMouse n b g) = sounds g"
  "audio (onMouse n b g) = audio g" "page (onMouse n b g) = page g"
  "exitPointerLock (onMouse n b g) = exitPointerLock g"
  by (simp_all add: onMouse_def)

lemma dispatch_sane:
  assumes "sane g" and "dispatch ev g = Inr g'"
  shows "sane g' \<and> wears g g'"
proof (cases ev)
  case (Frame f)
  with assms show ?thesis by (simp add: gameLoop_sane)
next
  case (Key c b)
  with assms have g': "g' = onKey c b g" by simp
  have "sane (onKey c b g)" using assms(1) by (rule sane_same) simp_all
  moreover have "wears g (onKey c b g)" by (rule wears_same) simp_all
  ultimately show ?thesis using g' by simp
next
  case (Mouse n b)
  with assms have g': "g' = onMouse n b g" by simp
  have "sane (onMouse n b g)" using assms(1) by (rule sane_same) simp_all
  moreover have "wears g (onMouse n b g)" by (rule wears_same) simp_all
  ultimately show ?thesis using g' by simp
qed

lemma initial_sane: "sane (initial loaded)"
  by (simp add: sane_def initial_def spawned_def)

lemma reachable_sane: "reachable g \<Longrightarrow> sane g"
  by (induction rule: reachable.induct) (auto simp add: initial_sane dest: dispatch_sane)

lemma ready_reachable: "reachable ready"
proof -
  have "reachable (onMouse 0 True (initial (\<lambda>_. True)))"
    by (rule reachable.step [OF reachable.start, of "Mouse 0 True"]) simp
  then show ?thesis
    unfolding ready_def by (rule reachable.step [of _ "Key ''Digit3'' True"]) simp
qed

lemma sqrt_400: "sqrt 400 = 20"
  by (rule real_sqrt_unique) simp_all

lemma ready_moved:
  "handleMovement volley ready =
     ready\<lparr>player := (player ready)\<lparr>velocity := Vector3 0 0 0, canJump := True\<rparr>,
             camera_position := Vector3 0 (5 / 2) 0\<rparr>"
  by (simp add: handleMovement_def Let_def volley_def ready_def initial_def onKey_def onMouse_def
      switchWeapon_def normalize_def vlength_def lengthSq_def crossVectors_def cameraUp_def
      multiplyScalar_def GRAVITY_def PLAYER_SPEED_def)

lemma ready_shot: "handleShooting volley aimed = Inr shot"
  by (simp add: handleShooting_def Let_def volley_def aimed_def shot_def ready_def initial_def
      onKey_def onMouse_def switchWeapon_def WEAPONS_def sfxMap_def playSound_def
      fireProjectile_def addScaledVector_def multiplyScalar_def)

lemma shot_environment: "handleEnvironment volley shot = shot"
  by (simp add: handleEnvironment_def volley_def intersectObjects_def shot_def aimed_def ready_def
      initial_def onKey_def onMouse_def switchWeapon_def)

lemma shot_chased:
  "e_position (objects (updateEnemies (3 / 5) shot) 0) = Vector3 0 (5 / 2) (- 91 / 5)"
  by (simp add: updateEnemies_def updateEnemy_def Let_def shot_def aimed_def ready_def
      initial_def onKey_def onMouse_def switchWeapon_def spawned_def playSound_def
      distanceTo_def distanceToSquared_def lengthSq_def sub_def sqrt_400 normalize_def
      vlength_def multiplyScalar_def addScaledVector_def sqrt_less_iff less_sqrt_iff)

lemma shot_fields:
  "enemies shot = [0, 1]" "e_hp (objects shot 0) = 50" "e_hp (objects shot (Suc 0)) = 50"
  "projectiles shot = [\<lparr>p_position = Vector3 0 (5 / 2) (- 1), p_velocity = Vector3 0 0 (- 30),
                                 p_type = PROJECTILE, p_damage = 15, p_lifetime = 2\<rparr>]"
  "currentWeaponIdx (player shot) = 2" "hp (player shot) = 100"
  by (simp_all add: shot_def aimed_def ready_def initial_def onKey_def onMouse_def switchWeapon_def
      spawned_def)

lemma shot_struck:
  "e_hp (objects (updateProjectiles (3 / 5) (updateEnemies (3 / 5) shot)) 0) = 35 \<and>
   e_hp (objects (updateProjectiles (3 / 5) (updateEnemies (3 / 5) shot)) 1) = 50 \<and>
   enemies (updateProjectiles (3 / 5) (updateEnemies (3 / 5) shot)) = [0, 1] \<and>
   projectiles (updateProjectiles (3 / 5) (updateEnemies (3 / 5) shot)) = []"
  by (simp add: updateProjectiles_def stepProjectile_def Let_def shot_fields shot_chased
      addScaledVector_def distanceTo_less distanceToSquared_def lengthSq_def sub_def
      damageEnemy_def)

lemma volley_frame:
  "\<exists>g'. dispatch (Frame volley) ready = Inr g' \<and> e_hp (objects g' 0) = 35 \<and>
        e_hp (objects g' 1) = 50 \<and> enemies g' = [0, 1] \<and> projectiles g' = [] \<and>
        lastFireTime (player g') = 1000"
proof -
  have idx: "WEAPONS (currentWeaponIdx (player (updateProjectiles (3 / 5) (updateEnemies (3 / 5) shot))))
      = Some \<lparr>w_name = ''Nailgun'', w_damage = 15, w_range = 40, w_delay = 100, w_type = PROJECTILE\<rparr>"
    by (simp add: shot_fields WEAPONS_def)
  then obtain g' where g': "updateHUD (updateProjectiles (3 / 5) (updateEnemies (3 / 5) shot)) = Inr g'"
    by (simp add: updateHUD_def Let_def)
  have "gameLoop volley ready = Inr g'"
    using g' ready_moved ready_shot shot_environment
    by (simp add: gameLoop_def aimed_def volley_def)
  with updateHUD_fields [OF g'] shot_struck show ?thesis
    by (simp add: shot_def)
qed

lemma hunter_reachable: "reachable hunter"
proof -
  have "reachable (onMouse 0 True (initial (\<lambda>_. True)))"
    by (rule reachable.step [OF reachable.start, of "Mouse 0 True"]) simp
  then have "reachable (onKey ''Digit2'' True (onMouse 0 True (initial (\<lambda>_. True))))"
    by (rule reachable.step [of _ "Key ''Digit2'' True"]) simp
  then show ?thesis
    unfolding hunter_def by (rule reachable.step [of _ "Key ''KeyW'' True"]) simp
qed

lemma hunter_moved: "handleMovement charge hunter = closing"
  by (simp add: handleMovement_def Let_def charge_def hunter_def closing_def initial_def onKey_def
      onMouse_def switchWeapon_def normalize_def vlength_def lengthSq_def crossVectors_def
      cameraUp_def multiplyScalar_def add_def GRAVITY_def PLAYER_SPEED_def)

lemma closing_shot: "handleShooting charge closing = Inr felled"
  by (simp add: handleShooting_def Let_def charge_def closing_def felled_def hunter_def initial_def
      onKey_def onMouse_def switchWeapon_def WEAPONS_def sfxMap_def playSound_def
      fireHitscan_def intersectObjects_def spawned_def damageEnemy_def killEnemy_def)

lemma felled_environment: "handleEnvironment charge felled = felled"
  by (simp add: handleEnvironment_def charge_def intersectObjects_def felled_def closing_def
      hunter_def initial_def onKey_def onMouse_def switchWeapon_def)

lemma felled_fields:
  "enemies felled = [1]" "e_hp (objects felled 0) = - 30" "projectiles felled = []"
  "currentWeaponIdx (player felled) = 1"
  by (simp_all add: felled_def closing_def hunter_def initial_def onKey_def onMouse_def
      switchWeapon_def)

lemma charge_frame:
  "\<exists>g'. dispatch (Frame charge) hunter = Inr g' \<and> e_hp (objects g' 0) = - 30 \<and> enemies g' = [1]"
proof -
  let ?g4 = "updateProjectiles (3 / 5) (updateEnemies (3 / 5) felled)"
  have p: "?g4 = (updateEnemies (3 / 5) felled)\<lparr>projectiles := []\<rparr>"
    by (simp add: updateProjectiles_def felled_fields)
  have "WEAPONS (currentWeaponIdx (player ?g4)) =
      Some \<lparr>w_name = ''Shotgun'', w_damage = 80, w_range = 15, w_delay = 1000, w_type = HITSCAN\<rparr>"
    by (simp add: felled_fields WEAPONS_def)
  then obtain g' where g': "updateHUD ?g4 = Inr g'"
    by (simp add: updateHUD_def Let_def)
  have "gameLoop charge hunter = Inr g'"
    using g' hunter_moved closing_shot felled_environment
    by (simp add: gameLoop_def charge_def)
  with updateHUD_fields [OF g'] show ?thesis
    by (simp add: p felled_fields)
qed

text \<open>
  C4. In every reachable state and for every operation of the simulation (a frame, a key
  or mouse event) that returns: no enemy's hp is higher afterwards; an enemy whose hp is
  0 or less is not in the active set afterwards; an enemy outside the active set stays
  outside and is not modified; the per-tick pass leaves an enemy with hp 0 or less
  untouched; and \<open>damageEnemy\<close>, the only operation that writes hp, subtracts its
  argument and removes the enemy from the active set in the same call when the result is
  0 or less.
\<close>

theorem enemy_hp_monotone:
  assumes "reachable g" and "dispatch ev g = Inr g'"
  shows "(\<forall>e. e_hp (objects g' e) \<le> e_hp (objects g e)) \<and>
         (\<forall>e. e_hp (objects g' e) \<le> 0 \<longrightarrow> e \<notin> set (enemies g')) \<and>
         (\<forall>e. e \<notin> set (enemies g) \<longrightarrow> e \<notin> set (enemies g') \<and> objects g' e = objects g e) \<and>
         (\<forall>e d. e_hp (objects g e) \<le> 0 \<longrightarrow> updateEnemy d e g = g) \<and>
         (\<forall>e d. e_hp (objects (damageEnemy e d g) e) = e_hp (objects g e) - d \<and>
                (e_hp (objects g e) - d \<le> 0 \<longrightarrow> e \<notin> set (enemies (damageEnemy e d g))))"
proof -
  have s: "sane g" using assms(1) by (rule reachable_sane)
  from dispatch_sane [OF s assms(2)] have s': "sane g'" and w: "wears g g'" by simp_all
  have a: "\<forall>e. e_hp (objects g' e) \<le> e_hp (objects g e)"
    using w by (simp add: wears_def)
  have b: "\<forall>e. e_hp (objects g' e) \<le> 0 \<longrightarrow> e \<notin> set (enemies g')"
    using s' by (auto simp add: sane_def)
  have c: "\<forall>e. e \<notin> set (enemies g) \<longrightarrow> e \<notin> set (enemies g') \<and> objects g' e = objects g e"
    using w by (auto simp add: wears_def)
  have d: "\<forall>e d. e_hp (objects g e) \<le> 0 \<longrightarrow> updateEnemy d e g = g"
    by (simp add: updateEnemy_def)
  have e: "\<forall>e d. e_hp (objects (damageEnemy e d g) e) = e_hp (objects g e) - d \<and>
                (e_hp (objects g e) - d \<le> 0 \<longrightarrow> e \<notin> set (enemies (damageEnemy e d g)))"
    using s by (simp add: damageEnemy_objects damageEnemy_enemies sane_def)
  from a b c d e show ?thesis by blast
qed

theorem enemy_hp_monotone_witness:
  "reachable ready \<and>
   (\<exists>g'. dispatch (Frame volley) ready = Inr g' \<and>
         e_hp (objects ready 0) = 50 \<and> e_hp (objects g' 0) = 35 \<and>
         e_hp (objects g' 0) \<le> e_hp (objects ready 0) \<and>
         e_hp (objects g' 1) \<le> e_hp (objects ready 1) \<and>
         objects g' 2 = objects ready 2) \<and>
   reachable hunter \<and>
   (\<exists>g'. dispatch (Frame charge) hunter = Inr g' \<and>
         e_hp (objects hunter 0) = 50 \<and> e_hp (objects g' 0) = - 30 \<and>
         0 \<notin> set (enemies g') \<and> enemies g' = [1])"
proof -
  obtain g' where g': "dispatch (Frame volley) ready = Inr g'" "e_hp (objects g' 0) = 35"
    "enemies g' = [0, 1]"
    using volley_frame by blast
  have two: "2 \<notin> set (enemies ready)"
    by (simp add: ready_def initial_def)
  have "e_hp (objects ready 0) = 50"
    by (simp add: ready_def initial_def spawned_def)
  with enemy_hp_monotone [OF ready_reachable g'(1)] two g'
  have hurt: "\<exists>g'. dispatch (Frame volley) ready = Inr g' \<and>
         e_hp (objects ready 0) = 50 \<and> e_hp (objects g' 0) = 35 \<and>
         e_hp (objects g' 0) \<le> e_hp (objects ready 0) \<and>
         e_hp (objects g' 1) \<le> e_hp (objects ready 1) \<and>
         objects g' 2 = objects ready 2"
    by auto
  obtain k' where k': "dispatch (Frame charge) hunter = Inr k'" "e_hp (objects k' 0) = - 30"
    "enemies k' = [1]"
    using charge_frame by blast
  have "e_hp (objects hunter 0) = 50"
    by (simp add: hunter_def initial_def spawned_def)
  moreover have "0 \<notin> set (enemies k')"
    using enemy_hp_monotone [OF hunter_reachable k'(1)] k'(2) by auto
  ultimately have dead: "\<exists>g'. dispatch (Frame charge) hunter = Inr g' \<and>
         e_hp (objects hunter 0) = 50 \<and> e_hp (objects g' 0) = - 30 \<and>
         0 \<notin> set (enemies g') \<and> enemies g' = [1]"
    using k' by blast
  from ready_reachable hurt hunter_reachable dead show ?thesis by blast
qed

section \<open>The enemy state machine\<close>

lemma updateEnemy_audio:
  "audio (updateEnemy d r g) =
     audio g @ (if 0 < e_hp (objects g r) \<and> e_state (objects g r) = IDLE \<and>
                   distanceTo (e_position (objects g r)) (camera_position g) < 25 \<and>
                   sounds g ''alert''
                then [''alert''] else [])"
  by (simp add: updateEnemy_def Let_def playSound_def)

lemma updateEnemy_chase:
  "e_state (objects g e) = CHASE \<Longrightarrow> e_state (objects (updateEnemy d r g) e) = CHASE"
  by (cases "e = r") (auto simp add: updateEnemy_def Let_def playSound_def)

lemma foldl_updateEnemy_chase:
  "e_state (objects g e) = CHASE \<Longrightarrow>
   e_state (objects (foldl (\<lambda>g' r. updateEnemy d r g') g rs) e) = CHASE"
  by (induction rs arbitrary: g) (simp_all add: updateEnemy_chase)

lemma damageEnemy_state [simp]:
  "e_state (objects (damageEnemy r d g) e) = e_state (objects g e)"
  "e_map (objects (damageEnemy r d g) e) = e_map (objects g e)"
  "e_position (objects (damageEnemy r d g) e) = e_position (objects g e)"
  by (simp_all add: damageEnemy_objects)

lemma fireHitscan_state [simp]:
  "e_state (objects (fireHitscan w f g) e) = e_state (objects g e)"
  using fireHitscan_cases [of w f g] by auto

lemma handleShooting_state:
  "handleShooting f g = Inr g' \<Longrightarrow> e_state (objects g' e) = e_state (objects g e)"
  by (auto simp add: handleShooting_def Let_def split: if_splits option.splits)

lemma stepProjectile_state [simp]:
  "e_state (objects (fst (stepProjectile d p g)) e) = e_state (objects g e)"
  by (simp add: stepProjectile_def Let_def split: option.split)

lemma projectileLoop_state [simp]:
  "e_state (objects (fst (projectileLoop d ps g)) e) = e_state (objects g e)"
  by (induction ps) (simp_all add: Let_def split_beta)

lemma updateProjectiles_state [simp]:
  "e_state (objects (updateProjectiles d g) e) = e_state (objects g e)"
  by (simp add: updateProjectiles_def split_beta)

lemma gameLoop_chase:
  assumes "gameLoop f g = Inr g'" and "e_state (objects g e) = CHASE"
  shows "e_state (objects g' e) = CHASE"
proof -
  obtain g3 where g3: "(if isLocked f
            then (case handleShooting f (handleMovement f g) of
                    Inl e \<Rightarrow> Inl e
                  | Inr g2 \<Rightarrow> Inr (handleEnvironment f g2))
            else Inr g) = Inr g3"
    and hud: "updateHUD (updateProjectiles (dt f) (updateEnemies (dt f) g3)) = Inr g'"
    using assms(1) by (auto simp add: gameLoop_def split: sum.splits)
  have "e_state (objects g3 e) = e_state (objects g e)"
    using g3 by (auto split: if_splits sum.splits dest: handleShooting_state)
  with assms(2) have "e_state (objects (updateEnemies (dt f) g3) e) = CHASE"
    by (simp add: updateEnemies_def foldl_updateEnemy_chase)
  then show ?thesis
    using updateHUD_fields [OF hud] by simp
qed

lemma dispatch_chase:
  assumes "dispatch ev g = Inr g'" and "e_state (objects g e) = CHASE"
  shows "e_state (objects g' e) = CHASE"
  using assms by (cases ev) (auto simp add: gameLoop_chase)

lemma updateEnemy_alerted:
  assumes "e \<noteq> r"
  shows "(0 < e_hp (objects (updateEnemy d r g) e) \<and> e_state (objects (updateEnemy d r g) e) = IDLE \<and>
          distanceTo (e_position (objects (updateEnemy d r g) e)) (camera_position (updateEnemy d r g)) < 25)
       = (0 < e_hp (objects g e) \<and> e_state (objects g e) = IDLE \<and>
          distanceTo (e_position (objects g e)) (camera_position g) < 25)"
  using assms by (simp add: updateEnemy_other)

lemma foldl_updateEnemy_audio:
  assumes "distinct rs"
  shows "audio (foldl (\<lambda>g' r. updateEnemy d r g') g rs) =
           audio g @ concat (map (\<lambda>r. if 0 < e_hp (objects g r) \<and> e_state (objects g r) = IDLE \<and>
                   distanceTo (e_position (objects g r)) (camera_position g) < 25 \<and>
                   sounds g ''alert'' then [''alert''] else []) rs)"
  using assms
proof (induction rs arbitrary: g)
  case Nil
  then show ?case by simp
next
  case (Cons r rs)
  have same: "(\<lambda>e. if 0 < e_hp (objects (updateEnemy d r g) e) \<and> e_state (objects (updateEnemy d r g) e) = IDLE \<and>
          distanceTo (e_position (objects (updateEnemy d r g) e)) (camera_position (updateEnemy d r g)) < 25
          \<and> sounds (updateEnemy d r g) ''alert'' then [''alert''] else []) e =
        (\<lambda>e. if 0 < e_hp (objects g e) \<and> e_state (objects g e) = IDLE \<and>
                   distanceTo (e_position (objects g e)) (camera_position g) < 25 \<and>
                   sounds g ''alert'' then [''alert''] else []) e" if "e \<in> set rs" for e
  proof -
    from that Cons.prems have "e \<noteq> r" by auto
    then show ?thesis by (simp add: updateEnemy_other)
  qed
  from Cons.prems have "distinct rs" by simp
  from Cons.IH [OF this, of "updateEnemy d r g"] same
  show ?case
    by (simp add: updateEnemy_audio cong: map_cong)
qed

lemma run_chase:
  "run evs g = Inr g' \<Longrightarrow> e_state (objects g e) = CHASE \<Longrightarrow> e_state (objects g' e) = CHASE"
proof (induction evs arbitrary: g)
  case Nil
  then show ?case by simp
next
  case (Cons ev evs)
  then obtain g1 where g1: "dispatch ev g = Inr g1" "run evs g1 = Inr g'"
    by (auto split: sum.splits)
  from dispatch_chase [OF g1(1) Cons.prems(2)] Cons.IH [OF g1(2)] show ?case by simp
qed

text \<open>
  C6. For the enemy behind a reference \<open>r\<close> and one pass of the per-tick callback over it:
  an alive enemy in IDLE ends in CHASE exactly when its distance to the player is below
  25, and then its texture becomes the chase texture and the alert cue is handed to
  \<open>playSound\<close> once; an IDLE enemy that is dead or not within 25 is left as it is; an
  enemy in CHASE stays in CHASE, keeps its texture and causes no sound. No execution
  takes an enemy from CHASE back to IDLE, whatever the distances. Over a whole pass the
  audio output grows by one alert per enemy that changes state in this tick (when the
  alert buffer was loaded), and by nothing else.
\<close>

theorem idle_to_chase:
  "(0 < e_hp (objects g r) \<and> e_state (objects g r) = IDLE \<longrightarrow>
      (e_state (objects (updateEnemy d r g) r) = CHASE) =
      (distanceTo (e_position (objects g r)) (camera_position g) < 25)) \<and>
   (0 < e_hp (objects g r) \<and> e_state (objects g r) = IDLE \<and>
    distanceTo (e_position (objects g r)) (camera_position g) < 25 \<longrightarrow>
      e_map (objects (updateEnemy d r g) r) = ''enemy_chase'' \<and>
      audio (updateEnemy d r g) = audio (playSound ''alert'' g)) \<and>
   (e_state (objects g r) = IDLE \<and>
    \<not> (0 < e_hp (objects g r) \<and> distanceTo (e_position (objects g r)) (camera_position g) < 25) \<longrightarrow>
      updateEnemy d r g = g) \<and>
   (e_state (objects g r) = CHASE \<longrightarrow>
      e_state (objects (updateEnemy d r g) r) = CHASE \<and>
      e_map (objects (updateEnemy d r g) r) = e_map (objects g r) \<and>
      audio (updateEnemy d r g) = audio g) \<and>
   (\<forall>evs g'. run evs g = Inr g' \<and> e_state (objects g r) = CHASE \<longrightarrow>
      e_state (objects g' r) = CHASE) \<and>
   (distinct (enemies g) \<longrightarrow>
      audio (updateEnemies d g) =
        audio g @ concat (map (\<lambda>e. if 0 < e_hp (objects g e) \<and> e_state (objects g e) = IDLE \<and>
                   distanceTo (e_position (objects g e)) (camera_position g) < 25 \<and>
                   sounds g ''alert'' then [''alert''] else []) (enemies g)))"
proof (intro conjI impI allI)
  assume "0 < e_hp (objects g r) \<and> e_state (objects g r) = IDLE"
  then show "(e_state (objects (updateEnemy d r g) r) = CHASE) =
      (distanceTo (e_position (objects g r)) (camera_position g) < 25)"
    by (simp add: updateEnemy_def Let_def playSound_def)
next
  assume a: "0 < e_hp (objects g r) \<and> e_state (objects g r) = IDLE \<and>
    distanceTo (e_position (objects g r)) (camera_position g) < 25"
  then show "e_map (objects (updateEnemy d r g) r) = ''enemy_chase''"
    by (simp add: updateEnemy_def Let_def playSound_def)
  from a show "audio (updateEnemy d r g) = audio (playSound ''alert'' g)"
    by (simp add: updateEnemy_audio playSound_audio)
next
  assume "e_state (objects g r) = IDLE \<and>
    \<not> (0 < e_hp (objects g r) \<and> distanceTo (e_position (objects g r)) (camera_position g) < 25)"
  then show "updateEnemy d r g = g"
    by (auto simp add: updateEnemy_def Let_def)
next
  assume c: "e_state (objects g r) = CHASE"
  then show "e_state (objects (updateEnemy d r g) r) = CHASE"
    by (rule updateEnemy_chase)
  from c show "e_map (objects (updateEnemy d r g) r) = e_map (objects g r)"
    by (simp add: updateEnemy_def Let_def)
  from c show "audio (updateEnemy d r g) = audio g"
    by (simp add: updateEnemy_audio)
next
  fix evs g'
  assume "run evs g = Inr g' \<and> e_state (objects g r) = CHASE"
  then show "e_state (objects g' r) = CHASE"
    using run_chase by blast
next
  assume "distinct (enemies g)"
  then show "audio (updateEnemies d g) =
        audio g @ concat (map (\<lambda>e. if 0 < e_hp (objects g e) \<and> e_state (objects g e) = IDLE \<and>
                   distanceTo (e_position (objects g e)) (camera_position g) < 25 \<and>
                   sounds g ''alert'' then [''alert''] else []) (enemies g))"
    unfolding updateEnemies_def by (rule foldl_updateEnemy_audio)
qed

lemma shot_enemies:
  "objects shot 0 = spawned 6 (Vector3 0 (5 / 2) (- 20))"
  "objects shot (Suc 0) = spawned 7 (Vector3 10 (5 / 2) (- 10))"
  "camera_position shot = Vector3 0 (5 / 2) 0" "audio shot = [''nailgun'']"
  "sounds shot = (\<lambda>_. True)"
  by (simp_all add: shot_def aimed_def ready_def initial_def onKey_def onMouse_def switchWeapon_def)

theorem idle_to_chase_witness:
  "e_state (objects (updateEnemy (3 / 5) 0 shot) 0) = CHASE \<and>
   e_map (objects (updateEnemy (3 / 5) 0 shot) 0) = ''enemy_chase'' \<and>
   audio (updateEnemy (3 / 5) 0 shot) = [''nailgun'', ''alert''] \<and>
   audio (updateEnemy (3 / 5) 0 (updateEnemy (3 / 5) 0 shot)) = [''nailgun'', ''alert''] \<and>
   updateEnemy (3 / 5) 0 (standing 40) = standing 40 \<and>
   audio (updateEnemies (3 / 5) shot) = [''nailgun'', ''alert'', ''alert'']"
proof -
  have seen: "0 < e_hp (objects shot 0) \<and> e_state (objects shot 0) = IDLE \<and>
      distanceTo (e_position (objects shot 0)) (camera_position shot) < 25"
    by (simp add: shot_enemies spawned_def distanceTo_less distanceToSquared_def lengthSq_def sub_def)
  from idle_to_chase [of shot 0 "3 / 5"] seen
  have first: "e_state (objects (updateEnemy (3 / 5) 0 shot) 0) = CHASE"
     "e_map (objects (updateEnemy (3 / 5) 0 shot) 0) = ''enemy_chase''"
     "audio (updateEnemy (3 / 5) 0 shot) = audio (playSound ''alert'' shot)"
    by simp_all
  from idle_to_chase [of "updateEnemy (3 / 5) 0 shot" 0 "3 / 5"] first(1)
  have second: "audio (updateEnemy (3 / 5) 0 (updateEnemy (3 / 5) 0 shot)) =
      audio (updateEnemy (3 / 5) 0 shot)"
    by simp
  have unseen: "e_state (objects (standing 40) 0) = IDLE \<and>
      \<not> (0 < e_hp (objects (standing 40) 0) \<and>
         distanceTo (e_position (objects (standing 40) 0)) (camera_position (standing 40)) < 25)"
    by (simp add: standing_def initial_def spawned_def distanceTo_less distanceToSquared_def
        lengthSq_def sub_def)
  from idle_to_chase [of "standing 40" 0 "3 / 5"] unseen
  have far: "updateEnemy (3 / 5) 0 (standing 40) = standing 40"
    by blast
  have "distinct (enemies shot)"
    by (simp add: shot_fields)
  with idle_to_chase [of shot 0 "3 / 5"]
  have "audio (updateEnemies (3 / 5) shot) =
        audio shot @ concat (map (\<lambda>e. if 0 < e_hp (objects shot e) \<and> e_state (objects shot e) = IDLE \<and>
                   distanceTo (e_position (objects shot e)) (camera_position shot) < 25 \<and>
                   sounds shot ''alert'' then [''alert''] else []) (enemies shot))"
    by blast
  then have both: "audio (updateEnemies (3 / 5) shot) = [''nailgun'', ''alert'', ''alert'']"
    by (simp add: shot_fields shot_enemies spawned_def distanceTo_less distanceToSquared_def
        lengthSq_def sub_def)
  from first second far both show ?thesis
    by (simp add: playSound_audio shot_enemies)
qed

section \<open>Enemy movement\<close>

lemma lengthSq_nonneg: "0 \<le> lengthSq a"
  by (simp add: lengthSq_def)

lemma vlength_sub: "vlength (sub p q) = distanceTo q p"
proof -
  have "lengthSq (sub p q) = lengthSq (sub q p)"
    by (simp add: lengthSq_def sub_def algebra_simps)
  then show ?thesis by (simp add: vlength_def distanceTo_def distanceToSquared_def)
qed

lemma normalize_sub:
  "normalize (sub p q) =
     Vector3 (vx (sub p q) / distanceTo q p) (vy (sub p q) / distanceTo q p) (vz (sub p q) / distanceTo q p)"
proof (cases "distanceTo q p = 0")
  case True
  then have "lengthSq (sub p q) = 0"
    using vlength_sub [of p q] by (simp add: vlength_def)
  then have "vx (sub p q) = 0 \<and> vy (sub p q) = 0 \<and> vz (sub p q) = 0"
    unfolding lengthSq_def
    by (metis add_nonneg_eq_0_iff mult_eq_0_iff zero_le_square add_nonneg_nonneg)
  with True show ?thesis
    by (simp add: normalize_def multiplyScalar_def)
next
  case False
  then show ?thesis
    by (simp add: normalize_def multiplyScalar_def vlength_sub)
qed

lemma updateEnemy_position:
  assumes "0 < e_hp (objects g r)"
    and "distanceTo (e_position (objects g r)) (camera_position g) < 25"
    and "e_attackRange (objects g r) < distanceTo (e_position (objects g r)) (camera_position g)"
  shows "e_position (objects (updateEnemy d r g) r) =
           addScaledVector (e_position (objects g r))
             (Vector3 (vx (sub (camera_position g) (e_position (objects g r))) /
                         distanceTo (e_position (objects g r)) (camera_position g))
                      0
                      (vz (sub (camera_position g) (e_position (objects g r))) /
                         distanceTo (e_position (objects g r)) (camera_position g)))
             (e_speed (objects g r) * d)"
  using assms by (simp add: updateEnemy_def Let_def playSound_def normalize_sub)

lemma flat_step_length:
  "distanceTo (addScaledVector p (Vector3 a 0 c) k) p = \<bar>k\<bar> * sqrt (a * a + c * c)"
proof -
  have "distanceToSquared (addScaledVector p (Vector3 a 0 c) k) p = (k * k) * (a * a + c * c)"
    by (simp add: distanceToSquared_def lengthSq_def sub_def addScaledVector_def algebra_simps)
  then show ?thesis
    by (simp add: distanceTo_def real_sqrt_mult)
qed

lemma flat_part:
  assumes "0 < l" and "l = sqrt (a * a + b * b + c * c)"
  shows "sqrt ((a / l) * (a / l) + (c / l) * (c / l)) = sqrt (a * a + c * c) / l"
proof -
  have "(a / l) * (a / l) + (c / l) * (c / l) = (a * a + c * c) / (l * l)"
    using assms(1) by (simp add: add_divide_distrib)
  then show ?thesis
    using assms(1) by (simp add: real_sqrt_divide)
qed

lemma level_approach:
  assumes "vy q = vy p" and "0 < distanceTo p q" and "0 \<le> k" and "k \<le> distanceTo p q"
  shows "distanceTo
           (addScaledVector p (Vector3 ((vx q - vx p) / distanceTo p q) 0 ((vz q - vz p) / distanceTo p q)) k) q
         = distanceTo p q - k"
proof -
  define l where "l = distanceTo p q"
  define a where "a = vx q - vx p"
  define c where "c = vz q - vz p"
  have l: "0 < l" "k \<le> l" using assms by (simp_all add: l_def)
  have ll: "l * l = a * a + c * c"
  proof -
    have "distanceToSquared p q = a * a + c * c"
      using assms(1) by (simp add: distanceToSquared_def lengthSq_def sub_def a_def c_def algebra_simps)
    moreover have "0 \<le> distanceToSquared p q"
      by (simp add: distanceToSquared_def lengthSq_nonneg)
    ultimately show ?thesis
      by (simp add: l_def distanceTo_def)
  qed
  have "distanceToSquared (addScaledVector p (Vector3 (a / l) 0 (c / l)) k) q
        = (1 - k / l) * (1 - k / l) * (a * a + c * c)"
    using assms(1) l(1)
    by (simp add: distanceToSquared_def lengthSq_def sub_def addScaledVector_def a_def c_def
        field_simps)
  also have "\<dots> = (l - k) * (l - k)"
    using l(1) by (simp add: ll [symmetric] field_simps)
  finally have "distanceTo (addScaledVector p (Vector3 (a / l) 0 (c / l)) k) q = \<bar>l - k\<bar>"
    by (simp add: distanceTo_def)
  then show ?thesis
    using l(2) by (simp add: l_def a_def c_def)
qed

text \<open>
  C7, as amended. For every alive enemy with distance below 25 and above its attack range,
  one pass of the per-tick callback moves it by the horizontal part of the step of length
  \<open>speed * dt\<close> towards the player: the displacement is \<open>speed * dt / distance\<close> times
  the difference of the positions with its vertical component set to 0. There is no
  vertical movement; the length of the displacement is \<open>speed * dt\<close> times the ratio of
  the horizontal distance to the distance, hence at most \<open>speed * dt\<close>, and exactly
  \<open>speed * dt\<close> when enemy and player are at the same height; then, if the step is not
  longer than the distance, the enemy ends exactly \<open>speed * dt\<close> closer to the player.
  In particular an enemy at distance 20 and at the player's height moves towards the
  player by exactly \<open>speed * dt\<close>. The enemy is in CHASE afterwards.
\<close>

theorem enemy_step:
  assumes "pos = e_position (objects g r)" and "playerPos = camera_position g"
    and "gap = distanceTo pos playerPos"
    and "pos' = e_position (objects (updateEnemy d r g) r)"
    and "stride = e_speed (objects g r) * d"
    and "0 < e_hp (objects g r)" and "gap < 25" and "e_attackRange (objects g r) < gap"
  shows "pos' = addScaledVector pos
                  (Vector3 ((vx playerPos - vx pos) / gap) 0 ((vz playerPos - vz pos) / gap)) stride \<and>
         vy pos' = vy pos \<and>
         distanceTo pos' pos =
           \<bar>stride\<bar> * (sqrt ((vx playerPos - vx pos) * (vx playerPos - vx pos) +
                             (vz playerPos - vz pos) * (vz playerPos - vz pos)) / gap) \<and>
         distanceTo pos' pos \<le> \<bar>stride\<bar> \<and>
         (vy playerPos = vy pos \<and> 0 < gap \<longrightarrow> distanceTo pos' pos = \<bar>stride\<bar>) \<and>
         (vy playerPos = vy pos \<and> 0 < gap \<and> 0 \<le> stride \<and> stride \<le> gap \<longrightarrow>
            distanceTo pos' playerPos = gap - stride) \<and>
         e_state (objects (updateEnemy d r g) r) = CHASE"
proof -
  define a where "a = vx playerPos - vx pos"
  define b where "b = vy playerPos - vy pos"
  define c where "c = vz playerPos - vz pos"
  have gap_eq: "gap = sqrt (a * a + b * b + c * c)"
    unfolding assms(3) distanceTo_def distanceToSquared_def lengthSq_def sub_def a_def b_def c_def
    by (simp add: algebra_simps)
  have moved: "pos' = addScaledVector pos (Vector3 (a / gap) 0 (c / gap)) stride"
    using updateEnemy_position [of g r d] assms by (simp add: sub_def a_def c_def)
  have level: "vy pos' = vy pos"
    unfolding moved by (simp add: addScaledVector_def)
  have len0: "distanceTo pos' pos = \<bar>stride\<bar> * sqrt ((a / gap) * (a / gap) + (c / gap) * (c / gap))"
    unfolding moved by (rule flat_step_length)
  have len: "distanceTo pos' pos = \<bar>stride\<bar> * (sqrt (a * a + c * c) / gap)"
  proof (cases "0 < gap")
    case True
    from flat_part [OF True gap_eq] len0 show ?thesis by simp
  next
    case False
    then have "gap = 0"
      using gap_eq by (smt (verit) real_sqrt_ge_zero add_nonneg_nonneg zero_le_square)
    with len0 show ?thesis by simp
  qed
  have part: "sqrt (a * a + c * c) / gap \<le> 1"
  proof (cases "0 < gap")
    case True
    have "sqrt (a * a + c * c) \<le> sqrt (a * a + b * b + c * c)"
      by (rule real_sqrt_le_mono) simp
    with True gap_eq show ?thesis by simp
  next
    case False
    then have "gap = 0"
      using gap_eq by (smt (verit) real_sqrt_ge_zero add_nonneg_nonneg zero_le_square)
    then show ?thesis by simp
  qed
  have bound: "distanceTo pos' pos \<le> \<bar>stride\<bar>"
  proof -
    have "\<bar>stride\<bar> * (sqrt (a * a + c * c) / gap) \<le> \<bar>stride\<bar> * 1"
      using part by (intro mult_left_mono) simp_all
    with len show ?thesis by simp
  qed
  have same: "distanceTo pos' pos = \<bar>stride\<bar>" if "vy playerPos = vy pos \<and> 0 < gap"
  proof -
    from that have "b = 0" by (simp add: b_def)
    with gap_eq have "sqrt (a * a + c * c) = gap" by simp
    with that len show ?thesis by simp
  qed
  have toward: "distanceTo pos' playerPos = gap - stride"
    if "vy playerPos = vy pos \<and> 0 < gap \<and> 0 \<le> stride \<and> stride \<le> gap"
    using that level_approach [of playerPos pos stride] moved
    by (simp add: assms(3) a_def c_def)
  have chase: "e_state (objects (updateEnemy d r g) r) = CHASE"
    using assms by (cases "e_state (objects g r)") (simp_all add: updateEnemy_def Let_def playSound_def)
  from moved level len bound same toward chase show ?thesis
    unfolding a_def c_def by blast
qed

lemma axis_step_length:
  "distanceTo (addScaledVector p (Vector3 0 0 c) k) p = \<bar>k\<bar> * \<bar>c\<bar>"
  using flat_step_length [of p 0 c k] by simp

theorem enemy_step_witness:
  "e_position (objects (updateEnemy (3 / 5) 0 shot) 0) = Vector3 0 (5 / 2) (- 91 / 5) \<and>
   distanceTo (e_position (objects (updateEnemy (3 / 5) 0 shot) 0)) (e_position (objects shot 0)) = 9 / 5 \<and>
   distanceTo (e_position (objects (updateEnemy (3 / 5) 0 shot) 0)) (camera_position shot) = 91 / 5"
proof -
  have gap: "distanceTo (e_position (objects shot 0)) (camera_position shot) = 20"
    by (simp add: shot_enemies spawned_def distanceTo_def distanceToSquared_def lengthSq_def sub_def
        sqrt_400)
  have alive: "0 < e_hp (objects shot 0)"
    by (simp add: shot_enemies spawned_def)
  have near: "distanceTo (e_position (objects shot 0)) (camera_position shot) < 25"
    by (simp add: gap)
  have far: "e_attackRange (objects shot 0) < distanceTo (e_position (objects shot 0)) (camera_position shot)"
    unfolding gap by (simp add: shot_enemies spawned_def)
  have gap': "distanceTo (Vector3 0 (5 / 2) (- 20)) (Vector3 0 (5 / 2) 0) = 20"
    using gap by (simp add: shot_enemies spawned_def)
  note tick = enemy_step [OF refl refl refl refl refl alive near far, of "3 / 5"]
  have a: "e_position (objects (updateEnemy (3 / 5) 0 shot) 0) = Vector3 0 (5 / 2) (- 91 / 5)"
    using tick [THEN conjunct1] unfolding gap
    by (simp add: shot_enemies spawned_def addScaledVector_def)
  have b: "distanceTo (e_position (objects (updateEnemy (3 / 5) 0 shot) 0)) (e_position (objects shot 0))
           = 9 / 5"
    using tick [THEN conjunct2, THEN conjunct2, THEN conjunct2, THEN conjunct2, THEN conjunct1]
    unfolding gap by (simp add: shot_enemies spawned_def)
  have c: "distanceTo (e_position (objects (updateEnemy (3 / 5) 0 shot) 0)) (camera_position shot)
           = 91 / 5"
    using tick [THEN conjunct2, THEN conjunct2, THEN conjunct2, THEN conjunct2, THEN conjunct2,
        THEN conjunct1]
    unfolding gap by (simp add: shot_enemies spawned_def)
  from a b c show ?thesis by blast
qed

text \<open>The claim as stated fails when the heights differ: the direction is normalised
  before its vertical component is dropped. An enemy at distance exactly 20 from a player
  in mid-jump moves by 143/2900 in a frame of 1/60 s, not by \<open>speed * dt = 1/20\<close>; and in
  the initial state, where the camera is still at the origin, the first enemy moves by
  less than \<open>speed * dt = 3\<close> in a frame of one second.\<close>

theorem enemy_step_counterexample:
  "0 < e_hp (objects midJump 0) \<and>
   distanceTo (e_position (objects midJump 0)) (camera_position midJump) = 20 \<and>
   e_attackRange (objects midJump 0) = 2 \<and>
   e_speed (objects midJump 0) * (1 / 60) = 1 / 20 \<and>
   distanceTo (e_position (objects (updateEnemy (1 / 60) 0 midJump) 0)) (e_position (objects midJump 0))
     = 143 / 2900 \<and>
   0 < e_hp (objects fresh 0) \<and>
   distanceTo (e_position (objects fresh 0)) (camera_position fresh) < 25 \<and>
   e_attackRange (objects fresh 0) < distanceTo (e_position (objects fresh 0)) (camera_position fresh) \<and>
   e_speed (objects fresh 0) * 1 = 3 \<and>
   distanceTo (e_position (objects (updateEnemy 1 0 fresh) 0)) (e_position (objects fresh 0)) < 3"
proof -
  have m: "objects midJump 0 = (spawned 6 (Vector3 0 (5 / 2) (- 572 / 29)))\<lparr>e_state := CHASE,
                       e_map := ''enemy_chase''\<rparr>"
     "camera_position midJump = Vector3 0 (5 / 2 + 96 / 29) 0"
    by (simp_all add: midJump_def shot_enemies spawned_def)
  have gap: "distanceTo (e_position (objects midJump 0)) (camera_position midJump) = 20"
    by (simp add: m spawned_def distanceTo_def distanceToSquared_def lengthSq_def sub_def)
  have alive: "0 < e_hp (objects midJump 0)"
    by (simp add: m spawned_def)
  have rest: "e_attackRange (objects midJump 0) = 2" "e_speed (objects midJump 0) * (1 / 60) = 1 / 20"
    by (simp_all add: m spawned_def)
  have "e_position (objects (updateEnemy (1 / 60) 0 midJump) 0) =
          addScaledVector (Vector3 0 (5 / 2) (- 572 / 29)) (Vector3 0 0 (143 / 145)) (1 / 20)"
    using updateEnemy_position [of midJump 0 "1 / 60"] alive
    by (simp add: gap rest) (simp add: m spawned_def sub_def)
  then have short: "distanceTo (e_position (objects (updateEnemy (1 / 60) 0 midJump) 0))
      (e_position (objects midJump 0)) = 143 / 2900"
    by (simp add: m spawned_def axis_step_length)
  have f: "objects fresh 0 = spawned 6 (Vector3 0 (5 / 2) (- 20))"
     "camera_position fresh = Vector3 0 0 0"
    by (simp_all add: fresh_def initial_def)
  have fgap: "distanceTo (e_position (objects fresh 0)) (camera_position fresh) = sqrt (1625 / 4)"
    by (simp add: f spawned_def distanceTo_def distanceToSquared_def lengthSq_def sub_def)
  have falive: "0 < e_hp (objects fresh 0)" "e_speed (objects fresh 0) * 1 = 3"
    by (simp_all add: f spawned_def)
  have fnear: "sqrt (1625 / 4) < 25" "2 < sqrt (1625 / 4)" "20 < sqrt (1625 / 4)"
    by (simp_all add: sqrt_less_iff less_sqrt_iff)
  have "e_position (objects (updateEnemy 1 0 fresh) 0) =
          addScaledVector (Vector3 0 (5 / 2) (- 20)) (Vector3 0 0 (20 / sqrt (1625 / 4))) 3"
    using updateEnemy_position [of fresh 0 1] falive fnear
    by (simp add: fgap) (simp add: f spawned_def sub_def)
  then have "distanceTo (e_position (objects (updateEnemy 1 0 fresh) 0)) (e_position (objects fresh 0))
      = 3 * (20 / sqrt (1625 / 4))"
    using fnear by (simp add: f spawned_def axis_step_length)
  moreover have "3 * (20 / sqrt (1625 / 4)) < 3"
    using fnear by (simp add: field_simps)
  ultimately have fshort: "distanceTo (e_position (objects (updateEnemy 1 0 fresh) 0))
      (e_position (objects fresh 0)) < 3"
    by simp
  from alive gap rest short falive fgap fnear fshort f show ?thesis
    by (simp add: spawned_def)
qed

section \<open>Jumping and landing\<close>

text \<open>
  C8, as amended. In the per-tick movement update, with \<open>fallen\<close> the vertical velocity
  after gravity, \<open>rise\<close> the vertical velocity after the jump test and \<open>height\<close> the
  integrated height: the vertical velocity is set to the jump impulse on a jump request
  only if the player is grounded, and the grounded flag clears on that jump (when the
  integrated height is not below the floor height); without a grounded jump request no
  impulse is given. The grounded flag is set, the vertical velocity set to 0 and the
  height clamped to the floor height 2.5 whenever the integrated height is strictly
  below 2.5; at 2.5 or above, the height and the vertical velocity are kept as
  integrated and the flag is not set.
\<close>

theorem jump_and_landing:
  assumes "fallen = vy (velocity (player g)) - GRAVITY * dt f"
    and "jump = (k_space (keys g) \<and> canJump (player g))"
    and "rise = (if jump then JUMP_FORCE else fallen)"
    and "height = vy (camera_position g) + rise * dt f"
    and "g' = handleMovement f g"
  shows "(jump \<and> 5 / 2 \<le> height \<longrightarrow>
            vy (velocity (player g')) = JUMP_FORCE \<and> \<not> canJump (player g') \<and>
            vy (camera_position g') = vy (camera_position g) + JUMP_FORCE * dt f) \<and>
         (\<not> jump \<longrightarrow> vy (velocity (player g')) = (if height < 5 / 2 then 0 else fallen)) \<and>
         (height < 5 / 2 \<longrightarrow>
            canJump (player g') \<and> vy (velocity (player g')) = 0 \<and> vy (camera_position g') = 5 / 2) \<and>
         (5 / 2 \<le> height \<longrightarrow>
            canJump (player g') = (canJump (player g) \<and> \<not> jump) \<and>
            vy (velocity (player g')) = rise \<and> vy (camera_position g') = height)"
  using assms by (auto simp add: handleMovement_def Let_def)

theorem jump_and_landing_witness:
  "vy (velocity (player (handleMovement (facing 0 0) crouched))) = 15 \<and>
   \<not> canJump (player (handleMovement (facing 0 0) crouched)) \<and>
   vy (camera_position (handleMovement (facing 0 0) crouched)) = 11 / 4 \<and>
   canJump (player (handleMovement (facing 0 0) fresh)) \<and>
   vy (velocity (player (handleMovement (facing 0 0) fresh))) = 0 \<and>
   vy (camera_position (handleMovement (facing 0 0) fresh)) = 5 / 2 \<and>
   vy (velocity (player (handleMovement halfSecond apex))) = - 15 \<and>
   \<not> canJump (player (handleMovement halfSecond apex)) \<and>
   vy (camera_position (handleMovement halfSecond apex)) = 5 / 2"
proof -
  have c: "k_space (keys crouched)" "canJump (player crouched)"
    "vy (velocity (player crouched)) = 0" "vy (camera_position crouched) = 5 / 2"
    by (simp_all add: crouched_def aimed_def ready_def onKey_def onMouse_def switchWeapon_def
        initial_def)
  have a: "\<not> k_space (keys apex)" "\<not> canJump (player apex)"
    "vy (velocity (player apex)) = 0" "vy (camera_position apex) = 10"
    "\<not> k_space (keys fresh)" "\<not> canJump (player fresh)"
    "vy (velocity (player fresh)) = 0" "vy (camera_position fresh) = 0"
    by (simp_all add: apex_def fresh_def initial_def)
  have t: "dt (facing 0 0) = 1 / 60" "dt halfSecond = 1 / 2"
    by (simp_all add: facing_def halfSecond_def)
  from jump_and_landing [OF refl refl refl refl refl, of crouched "facing 0 0"]
  have up: "vy (velocity (player (handleMovement (facing 0 0) crouched))) = 15 \<and>
   \<not> canJump (player (handleMovement (facing 0 0) crouched)) \<and>
   vy (camera_position (handleMovement (facing 0 0) crouched)) = 11 / 4"
    by (simp add: c t JUMP_FORCE_def GRAVITY_def)
  from jump_and_landing [OF refl refl refl refl refl, of fresh "facing 0 0"]
  have down: "canJump (player (handleMovement (facing 0 0) fresh)) \<and>
   vy (velocity (player (handleMovement (facing 0 0) fresh))) = 0 \<and>
   vy (camera_position (handleMovement (facing 0 0) fresh)) = 5 / 2"
    by (simp add: a t JUMP_FORCE_def GRAVITY_def)
  from jump_and_landing [OF refl refl refl refl refl, of apex halfSecond]
  have edge: "vy (velocity (player (handleMovement halfSecond apex))) = - 15 \<and>
   \<not> canJump (player (handleMovement halfSecond apex)) \<and>
   vy (camera_position (handleMovement halfSecond apex)) = 5 / 2"
    by (simp add: a t JUMP_FORCE_def GRAVITY_def)
  from up down edge show ?thesis by blast
qed

text \<open>The claim as stated fails at the boundary: the integrated height falls to the
  floor height exactly, and the player is neither grounded nor stopped.\<close>

theorem landing_counterexample:
  "vy (camera_position apex) + (vy (velocity (player apex)) - GRAVITY * dt halfSecond) * dt halfSecond
     = 5 / 2 \<and>
   \<not> canJump (player (handleMovement halfSecond apex)) \<and>
   vy (velocity (player (handleMovement halfSecond apex))) = - 15"
  by (simp add: handleMovement_def Let_def apex_def fresh_def initial_def halfSecond_def
      GRAVITY_def)

section \<open>The attack on the player\<close>

lemma sqrt_le_iff: "0 \<le> b \<Longrightarrow> (sqrt a \<le> b) = (a \<le> b * b)"
  by (metis abs_of_nonneg real_sqrt_abs2 real_sqrt_le_iff)

lemma distanceTo_le: "0 \<le> b \<Longrightarrow> (distanceTo p q \<le> b) = (distanceToSquared p q \<le> b * b)"
  by (simp add: distanceTo_def sqrt_le_iff)

lemma updateEnemy_hp:
  "hp (player (updateEnemy d r g)) =
     hp (player g) -
       (if 0 < e_hp (objects g r) \<and>
           distanceTo (e_position (objects g r)) (camera_position g) < 25 \<and>
           distanceTo (e_position (objects g r)) (camera_position g) \<le> e_attackRange (objects g r)
        then 1 / 10 else 0)"
  by (auto simp add: updateEnemy_def Let_def playSound_def)

lemma foldl_updateEnemy_hp:
  assumes "distinct rs"
  shows "hp (player (foldl (\<lambda>g' r. updateEnemy d r g') g rs)) =
           hp (player g) - (1 / 10) * real (length (filter (\<lambda>e. 0 < e_hp (objects g e) \<and>
              distanceTo (e_position (objects g e)) (camera_position g) < 25 \<and>
              distanceTo (e_position (objects g e)) (camera_position g) \<le> e_attackRange (objects g e)) rs))"
  using assms
proof (induction rs arbitrary: g)
  case Nil
  then show ?case by simp
next
  case (Cons r rs)
  have same: "filter (\<lambda>e. 0 < e_hp (objects (updateEnemy d r g) e) \<and>
              distanceTo (e_position (objects (updateEnemy d r g) e)) (camera_position (updateEnemy d r g)) < 25 \<and>
              distanceTo (e_position (objects (updateEnemy d r g) e)) (camera_position (updateEnemy d r g))
                \<le> e_attackRange (objects (updateEnemy d r g) e)) rs =
        filter (\<lambda>e. 0 < e_hp (objects g e) \<and>
              distanceTo (e_position (objects g e)) (camera_position g) < 25 \<and>
              distanceTo (e_position (objects g e)) (camera_position g) \<le> e_attackRange (objects g e)) rs"
  proof (rule filter_cong [OF refl])
    fix e assume "e \<in> set rs"
    with Cons.prems have "e \<noteq> r" by auto
    then show "(0 < e_hp (objects (updateEnemy d r g) e) \<and>
              distanceTo (e_position (objects (updateEnemy d r g) e)) (camera_position (updateEnemy d r g)) < 25 \<and>
              distanceTo (e_position (objects (updateEnemy d r g) e)) (camera_position (updateEnemy d r g))
                \<le> e_attackRange (objects (updateEnemy d r g) e)) =
            (0 < e_hp (objects g e) \<and>
              distanceTo (e_position (objects g e)) (camera_position g) < 25 \<and>
              distanceTo (e_position (objects g e)) (camera_position g) \<le> e_attackRange (objects g e))"
      by (simp add: updateEnemy_other)
  qed
  from Cons.prems have "distinct rs" by simp
  from Cons.IH [OF this, of "updateEnemy d r g"]
  show ?case
    unfolding same
    by (cases "0 < e_hp (objects g r) \<and>
              distanceTo (e_position (objects g r)) (camera_position g) < 25 \<and>
              distanceTo (e_position (objects g r)) (camera_position g) \<le> e_attackRange (objects g r)")
       (auto simp add: updateEnemy_hp algebra_simps)
qed

lemma handleShooting_player:
  "handleShooting f g = Inr g' \<Longrightarrow>
     hp (player g') = hp (player g) \<and> ammo_current (player g') = ammo_current (player g) \<and>
     ammo_max (player g') = ammo_max (player g) \<and> armor (player g') = armor (player g) \<and>
     currentWeaponIdx (player g') = currentWeaponIdx (player g)"
  by (auto simp add: handleShooting_def Let_def split: if_splits option.splits)

lemma updateEnemies_hp_le: "hp (player (updateEnemies d g)) \<le> hp (player g)"
proof -
  have "hp (player (foldl (\<lambda>g' r. updateEnemy d r g') g rs)) \<le> hp (player g)" for rs
  proof (induction rs arbitrary: g)
    case Nil
    then show ?case by simp
  next
    case (Cons r rs)
    have "hp (player (updateEnemy d r g)) \<le> hp (player g)"
      by (simp add: updateEnemy_hp)
    with Cons [of "updateEnemy d r g"] show ?case by simp
  qed
  then show ?thesis by (simp add: updateEnemies_def)
qed

lemma gameLoop_hp:
  assumes "gameLoop f g = Inr g'"
  shows "hp (player g') \<le> hp (player g)"
proof -
  obtain g3 where g3: "(if isLocked f
            then (case handleShooting f (handleMovement f g) of
                    Inl e \<Rightarrow> Inl e
                  | Inr g2 \<Rightarrow> Inr (handleEnvironment f g2))
            else Inr g) = Inr g3"
    and hud: "updateHUD (updateProjectiles (dt f) (updateEnemies (dt f) g3)) = Inr g'"
    using assms(1) by (auto simp add: gameLoop_def split: sum.splits)
  have "hp (player g3) = hp (player g)"
    using g3 by (auto split: if_splits sum.splits dest: handleShooting_player)
  moreover have "hp (player g') = hp (player (updateEnemies (dt f) g3))"
    using updateHUD_fields [OF hud] by simp
  ultimately show ?thesis
    using updateEnemies_hp_le [of "dt f" g3] by simp
qed

lemma dispatch_hp:
  assumes "dispatch ev g = Inr g'"
  shows "hp (player g') \<le> hp (player g)"
  using assms by (cases ev) (auto simp add: gameLoop_hp)

lemma run_hp:
  "run evs g = Inr g' \<Longrightarrow> hp (player g') \<le> hp (player g)"
proof (induction evs arbitrary: g)
  case Nil
  then show ?case by simp
next
  case (Cons ev evs)
  then obtain g1 where g1: "dispatch ev g = Inr g1" "run evs g1 = Inr g'"
    by (auto split: sum.splits)
  from dispatch_hp [OF g1(1)] Cons.IH [OF g1(2)] show ?case by simp
qed

text \<open>
  C9, as amended. In a tick, each alive enemy whose distance to the player is at most its
  attack range (and below 25) lowers the player's hp by exactly 0.1, a fixed amount not
  scaled by \<open>dt\<close>, and an enemy that is dead, out of sight or out of attack range does
  not change it; so the pass over the enemies lowers the hp by 0.1 times the number of
  attacking enemies. There is no lower clamp, and no operation raises the player's hp:
  along every execution it never increases, so it stays negative once it is.
\<close>

theorem attack_drain:
  assumes "distinct (enemies g)"
  shows "(0 < e_hp (objects g r) \<and>
          distanceTo (e_position (objects g r)) (camera_position g) < 25 \<and>
          distanceTo (e_position (objects g r)) (camera_position g) \<le> e_attackRange (objects g r) \<longrightarrow>
            hp (player (updateEnemy d r g)) = hp (player g) - 1 / 10) \<and>
         (\<not> (0 < e_hp (objects g r) \<and>
          distanceTo (e_position (objects g r)) (camera_position g) < 25 \<and>
          distanceTo (e_position (objects g r)) (camera_position g) \<le> e_attackRange (objects g r)) \<longrightarrow>
            hp (player (updateEnemy d r g)) = hp (player g)) \<and>
         hp (player (updateEnemies d g)) =
           hp (player g) - (1 / 10) * real (length (filter (\<lambda>e. 0 < e_hp (objects g e) \<and>
              distanceTo (e_position (objects g e)) (camera_position g) < 25 \<and>
              distanceTo (e_position (objects g e)) (camera_position g) \<le> e_attackRange (objects g e))
              (enemies g))) \<and>
         (\<forall>evs g'. run evs g = Inr g' \<longrightarrow> hp (player g') \<le> hp (player g))"
  using assms
  by (auto simp add: updateEnemy_hp updateEnemies_def foldl_updateEnemy_hp run_hp)

lemma cornered_fields:
  "enemies cornered = [0, 1]" "camera_position cornered = Vector3 0 (5 / 2) 0"
  "hp (player cornered) = 100"
  "objects cornered 0 = (spawned 6 (Vector3 0 (5 / 2) (- 3 / 2)))\<lparr>e_state := CHASE, e_map := ''enemy_chase''\<rparr>"
  "objects cornered (Suc 0) = (spawned 7 (Vector3 (3 / 2) (5 / 2) 0))\<lparr>e_state := CHASE, e_map := ''enemy_chase''\<rparr>"
  by (simp_all add: cornered_def shot_enemies shot_fields spawned_def)

lemma spent_fields:
  "enemies spent = [0, 1]" "camera_position spent = Vector3 0 (5 / 2) 0"
  "hp (player spent) = 0" "objects spent = objects cornered"
  by (simp_all add: spent_def cornered_fields)

theorem attack_drain_witness:
  "hp (player (updateEnemy (1 / 60) 0 cornered)) = 999 / 10 \<and>
   hp (player (updateEnemy (1 / 60) 0 shot)) = 100 \<and>
   hp (player (updateEnemies (1 / 60) cornered)) = 499 / 5 \<and>
   hp (player (updateEnemies (1 / 60) spent)) = - 1 / 5"
proof -
  have d: "distinct (enemies cornered)" "distinct (enemies shot)" "distinct (enemies spent)"
    by (simp_all add: cornered_fields shot_fields spent_fields)
  have one: "hp (player (updateEnemy (1 / 60) 0 cornered)) = 999 / 10"
    using attack_drain [OF d(1), of 0 "1 / 60", THEN conjunct1]
    by (simp add: cornered_fields spawned_def distanceTo_less distanceTo_le distanceToSquared_def
        lengthSq_def sub_def)
  have none: "hp (player (updateEnemy (1 / 60) 0 shot)) = 100"
    using attack_drain [OF d(2), of 0 "1 / 60", THEN conjunct2, THEN conjunct1]
    by (simp add: shot_enemies shot_fields spawned_def distanceTo_less distanceTo_le
        distanceToSquared_def lengthSq_def sub_def)
  have two: "hp (player (updateEnemies (1 / 60) cornered)) = 499 / 5"
    using attack_drain [OF d(1), of 0 "1 / 60", THEN conjunct2, THEN conjunct2, THEN conjunct1]
    by (simp add: cornered_fields spawned_def distanceTo_less distanceTo_le distanceToSquared_def
        lengthSq_def sub_def)
  have below: "hp (player (updateEnemies (1 / 60) spent)) = - 1 / 5"
    using attack_drain [OF d(3), of 0 "1 / 60", THEN conjunct2, THEN conjunct2, THEN conjunct1]
    by (simp add: spent_fields cornered_fields spawned_def distanceTo_less distanceTo_le
        distanceToSquared_def lengthSq_def sub_def)
  from one none two below show ?thesis by blast
qed

text \<open>The claim as stated fails in a tick with two attackers: the hp drops by 0.2.\<close>

theorem attack_drain_counterexample:
  "0 < e_hp (objects cornered 0) \<and>
   distanceTo (e_position (objects cornered 0)) (camera_position cornered) < 25 \<and>
   distanceTo (e_position (objects cornered 0)) (camera_position cornered)
     \<le> e_attackRange (objects cornered 0) \<and>
   hp (player (updateEnemies (1 / 60) cornered)) = hp (player cornered) - 2 / 10"
  by (simp add: updateEnemies_def updateEnemy_def Let_def cornered_fields spawned_def
      distanceTo_less less_distanceTo distanceTo_le distanceToSquared_def lengthSq_def sub_def)

section \<open>Ammunition\<close>

lemma updateHUD_page:
  assumes "updateHUD g = Inr g'"
  shows "\<exists>h. page g' = Some h \<and> fst (hud_ammo h) = ammo_current (player g)"
  using assms by (auto simp add: updateHUD_def Let_def split: option.splits if_splits)

lemma updateHUD_total:
  assumes "currentWeaponIdx (player g) < 4"
  shows "\<exists>g'. updateHUD g = Inr g'"
proof -
  from assms obtain w where "WEAPONS (currentWeaponIdx (player g)) = Some w"
    using WEAPONS_defined by blast
  then show ?thesis by (simp add: updateHUD_def Let_def)
qed

lemma handleShooting_total:
  assumes "currentWeaponIdx (player g) < 4"
  shows "\<exists>g'. handleShooting f g = Inr g'"
proof -
  from assms obtain w where "WEAPONS (currentWeaponIdx (player g)) = Some w"
    using WEAPONS_defined by blast
  then show ?thesis by (simp add: handleShooting_def Let_def)
qed

lemma gameLoop_player:
  assumes "gameLoop f g = Inr g'"
  shows "ammo_current (player g') = ammo_current (player g) \<and>
         ammo_max (player g') = ammo_max (player g) \<and>
         armor (player g') = armor (player g) \<and>
         currentWeaponIdx (player g') = currentWeaponIdx (player g) \<and>
         (\<exists>h. page g' = Some h \<and> fst (hud_ammo h) = ammo_current (player g))"
proof -
  obtain g3 where g3: "(if isLocked f
            then (case handleShooting f (handleMovement f g) of
                    Inl e \<Rightarrow> Inl e
                  | Inr g2 \<Rightarrow> Inr (handleEnvironment f g2))
            else Inr g) = Inr g3"
    and hud: "updateHUD (updateProjectiles (dt f) (updateEnemies (dt f) g3)) = Inr g'"
    using assms(1) by (auto simp add: gameLoop_def split: sum.splits)
  have a: "ammo_current (player g3) = ammo_current (player g) \<and>
         ammo_max (player g3) = ammo_max (player g) \<and>
         armor (player g3) = armor (player g) \<and>
         currentWeaponIdx (player g3) = currentWeaponIdx (player g)"
    using g3 by (auto split: if_splits sum.splits dest: handleShooting_player)
  from updateHUD_page [OF hud] updateHUD_fields(1) [OF hud] a show ?thesis
    by simp
qed

lemma gameLoop_total:
  assumes "currentWeaponIdx (player g) < 4"
  shows "\<exists>g'. gameLoop f g = Inr g'"
proof -
  have "\<exists>g3. (if isLocked f
            then (case handleShooting f (handleMovement f g) of
                    Inl e \<Rightarrow> Inl e
                  | Inr g2 \<Rightarrow> Inr (handleEnvironment f g2))
            else Inr g) = Inr g3 \<and> currentWeaponIdx (player g3) = currentWeaponIdx (player g)"
  proof (cases "isLocked f")
    case False
    then show ?thesis by simp
  next
    case True
    from handleShooting_total [of "handleMovement f g" f] assms
    obtain g2 where g2: "handleShooting f (handleMovement f g) = Inr g2" by auto
    from handleShooting_player [OF g2] True g2 show ?thesis by simp
  qed
  then obtain g3 where g3: "(if isLocked f
            then (case handleShooting f (handleMovement f g) of
                    Inl e \<Rightarrow> Inl e
                  | Inr g2 \<Rightarrow> Inr (handleEnvironment f g2))
            else Inr g) = Inr g3" "currentWeaponIdx (player g3) = currentWeaponIdx (player g)"
    by blast
  from updateHUD_total [of "updateProjectiles (dt f) (updateEnemies (dt f) g3)"] g3(2) assms
  obtain g' where "updateHUD (updateProjectiles (dt f) (updateEnemies (dt f) g3)) = Inr g'"
    by auto
  with g3(1) show ?thesis by (simp add: gameLoop_def)
qed

lemma onKey_slot:
  "currentWeaponIdx (player g) < 4 \<Longrightarrow> currentWeaponIdx (player (onKey c b g)) < 4"
  by (simp add: onKey_def switchWeapon_def)

lemma dispatch_ammo:
  assumes "dispatch ev g = Inr g'"
  shows "ammo_current (player g') = ammo_current (player g) \<and>
         ammo_max (player g') = ammo_max (player g)"
  using assms by (cases ev) (auto dest: gameLoop_player)

lemma dispatch_slot:
  assumes "dispatch ev g = Inr g'" and "currentWeaponIdx (player g) < 4"
  shows "currentWeaponIdx (player g') < 4"
  using assms by (cases ev) (auto dest: gameLoop_player simp add: onKey_slot)

lemma dispatch_page:
  assumes "dispatch ev g = Inr g'" and "page g' = Some h"
  shows "fst (hud_ammo h) = ammo_current (player g) \<or> page g = Some h"
  using assms by (cases ev) (auto dest: gameLoop_player)

lemma dispatch_total:
  "currentWeaponIdx (player g) < 4 \<Longrightarrow> \<exists>g'. dispatch ev g = Inr g'"
  by (cases ev) (simp_all add: gameLoop_total)

lemma reachable_ammo:
  "reachable g \<Longrightarrow>
     ammo_current (player g) = 20 \<and> ammo_max (player g) = 50 \<and>
     currentWeaponIdx (player g) < 4 \<and>
     (\<forall>h. page g = Some h \<longrightarrow> fst (hud_ammo h) = 20)"
proof (induction rule: reachable.induct)
  case (start loaded)
  then show ?case by (simp add: initial_def)
next
  case (step g ev g')
  from dispatch_ammo [OF step(2)] dispatch_slot [OF step(2)] step(3)
  have "ammo_current (player g') = 20 \<and> ammo_max (player g') = 50 \<and>
     currentWeaponIdx (player g') < 4"
    by simp
  moreover have "fst (hud_ammo h) = 20" if "page g' = Some h" for h
    using dispatch_page [OF step(2) that] step(3) by auto
  ultimately show ?case by blast
qed

text \<open>
  C10. Firing never changes the player's ammunition: \<open>handleShooting\<close>, whether the
  request is honoured or gated, and both resolutions leave \<open>ammo.current\<close> and \<open>ammo.max\<close>
  as they are, and so does every operation of the simulation. Hence in every reachable
  state the ammunition is 20 of 50, whatever the HUD has written shows 20, and every
  frame returns (no slot outside 0 to 3 is ever selected) and writes a HUD whose
  ammunition count is 20.
\<close>

theorem ammo_constant:
  "(\<forall>g'. handleShooting f g = Inr g' \<longrightarrow>
       ammo_current (player g') = ammo_current (player g) \<and>
       ammo_max (player g') = ammo_max (player g)) \<and>
   ammo_current (player (fireHitscan w f g)) = ammo_current (player g) \<and>
   ammo_max (player (fireHitscan w f g)) = ammo_max (player g) \<and>
   ammo_current (player (fireProjectile w f g)) = ammo_current (player g) \<and>
   ammo_max (player (fireProjectile w f g)) = ammo_max (player g) \<and>
   (\<forall>ev g'. dispatch ev g = Inr g' \<longrightarrow>
       ammo_current (player g') = ammo_current (player g) \<and>
       ammo_max (player g') = ammo_max (player g)) \<and>
   (reachable g \<longrightarrow>
       ammo_current (player g) = 20 \<and> ammo_max (player g) = 50 \<and>
       (\<forall>h. page g = Some h \<longrightarrow> fst (hud_ammo h) = 20) \<and>
       (\<forall>fr. \<exists>g' h. gameLoop fr g = Inr g' \<and> page g' = Some h \<and> fst (hud_ammo h) = 20))"
proof (intro conjI allI impI)
  fix g' assume "handleShooting f g = Inr g'"
  from handleShooting_player [OF this]
  show "ammo_current (player g') = ammo_current (player g)"
    and "ammo_max (player g') = ammo_max (player g)" by simp_all
next
  fix ev g' assume "dispatch ev g = Inr g'"
  from dispatch_ammo [OF this]
  show "ammo_current (player g') = ammo_current (player g)"
    and "ammo_max (player g') = ammo_max (player g)" by simp_all
next
  assume r: "reachable g"
  from reachable_ammo [OF r]
  show "ammo_current (player g) = 20" and "ammo_max (player g) = 50" by simp_all
  fix h assume "page g = Some h"
  with reachable_ammo [OF r] show "fst (hud_ammo h) = 20" by simp
next
  fix fr assume r: "reachable g"
  from reachable_ammo [OF r] have a: "ammo_current (player g) = 20"
    and s: "currentWeaponIdx (player g) < 4" by simp_all
  from gameLoop_total [OF s, of fr] obtain g' where g': "gameLoop fr g = Inr g'" by blast
  from gameLoop_player [OF g'] a g'
  show "\<exists>g' h. gameLoop fr g = Inr g' \<and> page g' = Some h \<and> fst (hud_ammo h) = 20"
    by auto
qed simp_all

theorem ammo_constant_witness:
  "reachable ready \<and> ammo_current (player ready) = 20 \<and> ammo_max (player ready) = 50 \<and>
   (\<exists>g' h. gameLoop volley ready = Inr g' \<and> lastFireTime (player g') = 1000 \<and>
           ammo_current (player g') = 20 \<and> ammo_max (player g') = 50 \<and>
           page g' = Some h \<and> fst (hud_ammo h) = 20)"
proof -
  note t = ammo_constant [of volley ready Knuckles]
  from t ready_reachable
  have a: "ammo_current (player ready) = 20" "ammo_max (player ready) = 50"
    by simp_all
  from t ready_reachable obtain g' h where g': "gameLoop volley ready = Inr g'"
    "page g' = Some h" "fst (hud_ammo h) = 20"
    by blast
  have d: "dispatch (Frame volley) ready = Inr g'"
    using g'(1) by simp
  from t d a have b: "ammo_current (player g') = 20" "ammo_max (player g') = 50"
    by metis+
  from volley_frame d have c: "lastFireTime (player g') = 1000"
    by auto
  from a b c g' ready_reachable show ?thesis by blast
qed

section \<open>The secret wall\<close>

lemma width_0 [simp]: "width 0 = 0"
  by simp


declare width.simps [simp del]




lemma handleEnvironment_height:
  "m_y (meshes (handleEnvironment f g) h) =
     (if (\<exists>hit rest. intersectObjects (ray f) (levelGeometry g) = hit # rest \<and> h_object hit = h \<and>
              h_distance hit < 4) \<and> m_isSecret (meshes g h)
      then wallStep64 (m_y (meshes g h)) else m_y (meshes g h))"
  by (auto simp add: handleEnvironment_def wallStep64_def split: list.split)


lemma handleEnvironment_same:
  "levelGeometry g2 = levelGeometry g \<Longrightarrow> meshes g2 = meshes g \<Longrightarrow>
   meshes (handleEnvironment f g2) = meshes (handleEnvironment f g)"
  by (simp add: handleEnvironment_def split: list.split)

lemma handleShooting_level:
  "handleShooting f g = Inr g' \<Longrightarrow> meshes g' = meshes g \<and> levelGeometry g' = levelGeometry g"
  by (auto simp add: handleShooting_def Let_def split: if_splits option.splits)

lemma gameLoop_meshes:
  assumes "gameLoop f g = Inr g'"
  shows "meshes g' = (if isLocked f then meshes (handleEnvironment f g) else meshes g)"
    and "levelGeometry g' = levelGeometry g"
proof -
  obtain g3 where g3: "(if isLocked f
            then (case handleShooting f (handleMovement f g) of
                    Inl e \<Rightarrow> Inl e
                  | Inr g2 \<Rightarrow> Inr (handleEnvironment f g2))
            else Inr g) = Inr g3"
    and hud: "updateHUD (updateProjectiles (dt f) (updateEnemies (dt f) g3)) = Inr g'"
    using assms(1) by (auto simp add: gameLoop_def split: sum.splits)
  have "meshes g3 = (if isLocked f then meshes (handleEnvironment f g) else meshes g) \<and>
        levelGeometry g3 = levelGeometry g"
  proof (cases "isLocked f")
    case False
    with g3 show ?thesis by simp
  next
    case True
    with g3 obtain g2 where g2: "handleShooting f (handleMovement f g) = Inr g2"
      and e: "g3 = handleEnvironment f g2"
      by (auto split: sum.splits)
    from handleShooting_level [OF g2] have l: "meshes g2 = meshes g" "levelGeometry g2 = levelGeometry g"
      by simp_all
    then have "meshes (handleEnvironment f g2) = meshes (handleEnvironment f g)"
      by (intro handleEnvironment_same) simp_all
    with True e l show ?thesis by simp
  qed
  then show "meshes g' = (if isLocked f then meshes (handleEnvironment f g) else meshes g)"
    and "levelGeometry g' = levelGeometry g"
    using updateHUD_fields [OF hud] by simp_all
qed

text \<open>What a frame does to the height of a level mesh: it is lowered by one binary64
  subtraction of 0.1, whatever \<open>dt\<close>, when control is active, the nearest hit of the view
  ray among the level geometry is that mesh at a distance below 4, the mesh is flagged
  secret and its height is above -5; in every other case it is unchanged, and at -5 or
  below no step is taken.\<close>

lemma secret_wall_moves:
  assumes "gameLoop f g = Inr g'"
  shows "m_y (meshes g' h) =
           (if isLocked f \<and>
               (\<exists>hit rest. intersectObjects (ray f) (levelGeometry g) = hit # rest \<and>
                   h_object hit = h \<and> h_distance hit < 4) \<and>
               m_isSecret (meshes g h) \<and> - 5 < value64 (m_y (meshes g h))
            then sub64 (m_y (meshes g h)) tenth64 else m_y (meshes g h))"
  using gameLoop_meshes [OF assms] by (auto simp add: handleEnvironment_height wallStep64_def)



end
